theory Spec2Isabelle
  imports Main "HOL-Library.Word" "HOL-Library.AList"
begin

unbundle bit_operations_syntax

section \<open>Buffers and JavaScript faults\<close>

text \<open>
  A Node \<open>Buffer\<close> is a list of bytes. The bitwise operators of JavaScript work on
  32-bit integers: a byte read from a buffer is widened (\<open>ucast\<close>), the operation is done
  on \<open>32 word\<close>, and a store into a buffer keeps the low eight bits.
  The exceptions the modelled code can raise are values of \<open>fault\<close>.
\<close>

type_synonym byte = "8 word"
type_synonym buffer = "byte list"
type_synonym int32 = "32 word"

datatype fault = RangeError | TypeError | ReferenceError

text \<open>\<open>buf[i]\<close> used as a number: \<open>undefined\<close> past the end, which the bitwise
  operators read as 0.\<close>

definition load8 :: "buffer \<Rightarrow> nat \<Rightarrow> int32" where
  "load8 b i = (if i < length b then ucast (b ! i) else 0)"

text \<open>\<open>buf[i] = v\<close> keeps \<open>v & 0xff\<close>.\<close>

definition store8 :: "int32 \<Rightarrow> byte" where
  "store8 v = ucast v"

text \<open>\<open>buf.readUInt8(off)\<close>, \<open>buf.readUInt16LE(off)\<close> and \<open>buf.readUInt32LE(off)\<close>
  raise a RangeError when the read does not lie inside the buffer.\<close>

definition readUInt8 :: "buffer \<Rightarrow> nat \<Rightarrow> fault + nat" where
  "readUInt8 b off = (if off + 1 \<le> length b then Inr (unat (b ! off)) else Inl RangeError)"

definition readUInt16LE :: "buffer \<Rightarrow> nat \<Rightarrow> fault + nat" where
  "readUInt16LE b off =
     (if off + 2 \<le> length b then Inr (unat (b ! off) + 256 * unat (b ! (off + 1)))
      else Inl RangeError)"

definition readUInt32LE :: "buffer \<Rightarrow> nat \<Rightarrow> fault + nat" where
  "readUInt32LE b off =
     (if off + 4 \<le> length b
      then Inr (unat (b ! off) + 256 * unat (b ! (off + 1)) + 65536 * unat (b ! (off + 2))
                + 16777216 * unat (b ! (off + 3)))
      else Inl RangeError)"

text \<open>\<open>buf.slice(start, end)\<close> for non-negative arguments: both ends are clamped to the
  buffer, and the result is empty when \<open>end \<le> start\<close>.\<close>

definition slice :: "buffer \<Rightarrow> nat \<Rightarrow> nat \<Rightarrow> buffer" where
  "slice b start end = take (end - start) (drop start b)"

section \<open>NTLM primitives (lib/ntlm.js)\<close>

subsection \<open>expandKey\<close>

definition PARITY_MASK :: int32 where
  "PARITY_MASK = 0x01"

text \<open>Each \<open>key64[i] = ...\<close> is a store, each \<open>key64[i] &= ...\<close> and \<open>key64[i] |= ...\<close>
  reads the stored byte back, so every second line below widens the byte just stored.\<close>

definition expandKey :: "buffer \<Rightarrow> buffer" where
  "expandKey key56 =
    (let k0 = store8 (load8 key56 0 AND 0xfe);
         k0 = store8 (ucast k0 AND NOT PARITY_MASK);
         k1 = store8 ((push_bit 7 (load8 key56 0) AND 0xff) OR drop_bit 1 (load8 key56 1));
         k1 = store8 (ucast k1 OR PARITY_MASK);
         k2 = store8 ((push_bit 6 (load8 key56 1) AND 0xff) OR drop_bit 2 (load8 key56 2));
         k2 = store8 (ucast k2 AND NOT PARITY_MASK);
         k3 = store8 ((push_bit 5 (load8 key56 2) AND 0xff) OR drop_bit 3 (load8 key56 3));
         k3 = store8 (ucast k3 OR PARITY_MASK);
         k4 = store8 ((push_bit 4 (load8 key56 3) AND 0xff) OR drop_bit 4 (load8 key56 4));
         k4 = store8 (ucast k4 AND NOT PARITY_MASK);
         k5 = store8 ((push_bit 3 (load8 key56 4) AND 0xff) OR drop_bit 5 (load8 key56 5));
         k5 = store8 (ucast k5 OR PARITY_MASK);
         k6 = store8 ((push_bit 2 (load8 key56 5) AND 0xff) OR drop_bit 6 (load8 key56 6));
         k6 = store8 (ucast k6 AND NOT PARITY_MASK);
         k7 = store8 (push_bit 1 (load8 key56 6) AND 0xff);
         k7 = store8 (ucast k7 OR PARITY_MASK)
     in [k0, k1, k2, k3, k4, k5, k6, k7])"

text \<open>The parity bit (bit 0) of an output byte, as the claim about \<open>expandKey\<close> words it:
  set at odd positions, cleared at even ones.\<close>

definition with_parity :: "nat \<Rightarrow> byte \<Rightarrow> byte" where
  "with_parity i v = (if odd i then v OR 1 else v AND NOT 1)"

subsection \<open>NTLMv2 blob parsing and response validation\<close>

definition MIN_BLOB_SIZE :: nat where
  "MIN_BLOB_SIZE = 36"

definition BLOB_SIGNATURE :: buffer where
  "BLOB_SIGNATURE = [0x01, 0x01, 0x00, 0x00]"

definition EOL :: nat where
  "EOL = 0x0000"

text \<open>The object \<open>parseNTLMv2Blob\<close> builds. \<open>timeStamp\<close> keeps the two 32-bit halves
  read from the blob (the source hands them to \<open>utils.smbToSystemTime\<close>, which no claim
  looks at). \<open>info\<close> is the object keyed by attribute type: an assignment to a key that
  is already there replaces its value, which is \<open>AList.update\<close>.\<close>

record blob_obj =
  signature :: buffer
  reserved :: buffer
  timeStamp :: "nat \<times> nat"
  nonce :: buffer
  unknown :: buffer
  info :: "(nat \<times> buffer) list"
  unknown2 :: buffer
  unknownTrailer :: "buffer option"

text \<open>The \<open>while (type !== EOL)\<close> loop, entered with \<open>off\<close> just behind the type that
  was read last. Each of the two \<open>readUInt16LE\<close> calls of the body can raise.\<close>

function info_loop ::
  "buffer \<Rightarrow> nat \<Rightarrow> nat \<Rightarrow> (nat \<times> buffer) list \<Rightarrow> fault + (nat \<times> (nat \<times> buffer) list)" where
  "info_loop blob off type infos =
     (if type \<noteq> EOL then
        (case readUInt16LE blob off of
           Inl e \<Rightarrow> Inl e
         | Inr len \<Rightarrow>
            (case readUInt16LE blob (off + 2 + len) of
               Inl e \<Rightarrow> Inl e
             | Inr type' \<Rightarrow>
                 info_loop blob (off + 2 + len + 2) type'
                   (AList.update type (slice blob (off + 2) (off + 2 + len)) infos)))
      else Inr (off, infos))"
  by pat_completeness auto
termination
  by (relation "measure (\<lambda>(blob, off, type, infos). length blob - off)")
     (auto simp add: readUInt16LE_def split: if_splits)

declare info_loop.simps [simp del]

text \<open>\<open>parseNTLMv2Blob\<close> returns \<open>null\<close> (here \<open>Inr None\<close>) for a blob shorter than
  \<open>MIN_BLOB_SIZE\<close>. The fixed part of the blob takes offsets 0 to 27, the attribute list
  starts at 28.\<close>

definition parseNTLMv2Blob :: "buffer \<Rightarrow> fault + blob_obj option" where
  "parseNTLMv2Blob blob =
    (if length blob < MIN_BLOB_SIZE then Inr None
     else
       (case readUInt32LE blob 8 of Inl e \<Rightarrow> Inl e | Inr timeLow \<Rightarrow>
       (case readUInt32LE blob 12 of Inl e \<Rightarrow> Inl e | Inr timeHigh \<Rightarrow>
       (case readUInt16LE blob 28 of Inl e \<Rightarrow> Inl e | Inr type \<Rightarrow>
       (case info_loop blob 30 type [] of Inl e \<Rightarrow> Inl e | Inr (off, infos) \<Rightarrow>
          (let off = off + 2 in
           Inr (Some \<lparr> signature = slice blob 0 4,
                       reserved = slice blob 4 8,
                       timeStamp = (timeLow, timeHigh),
                       nonce = slice blob 16 24,
                       unknown = slice blob 24 28,
                       info = infos,
                       unknown2 = slice blob off (off + 4),
                       unknownTrailer =
                         (if off + 4 < length blob
                          then Some (slice blob (off + 4) (length blob)) else None) \<rparr>)))))))"

text \<open>A JavaScript string is a sequence of UTF-16 code units;
  \<open>new Buffer(s, 'utf16le')\<close> writes each unit low byte first.\<close>

type_synonym jsstring = "16 word list"

definition utf16le :: "jsstring \<Rightarrow> buffer" where
  "utf16le s = concat (map (\<lambda>c. [ucast c, ucast (drop_bit 8 c)]) s)"

text \<open>
  HMAC-MD5 comes from Node's \<open>crypto\<close> module and \<open>toUpperCase\<close> from the JavaScript
  runtime; neither is code of the repository. Every function below that calls them takes
  them as its first parameters: \<open>hmac_md5 key data\<close> and \<open>toUpperCase s\<close>.
\<close>

definition createNTLM2Hash ::
  "(buffer \<Rightarrow> buffer \<Rightarrow> buffer) \<Rightarrow> (jsstring \<Rightarrow> jsstring) \<Rightarrow> buffer \<Rightarrow> jsstring \<Rightarrow> jsstring \<Rightarrow> buffer" where
  "createNTLM2Hash hmac_md5 toUpperCase ntlmHash userName domainName =
     (let data = utf16le (toUpperCase userName @ toUpperCase domainName)
      in hmac_md5 ntlmHash data)"

definition calculateNTLM2Response ::
  "(buffer \<Rightarrow> buffer \<Rightarrow> buffer) \<Rightarrow> buffer \<Rightarrow> buffer \<Rightarrow> buffer \<Rightarrow> buffer" where
  "calculateNTLM2Response hmac_md5 ntlm2Hash blob challenge =
     (let data = challenge @ blob;
          hmac = hmac_md5 ntlm2Hash data
      in hmac @ blob)"

text \<open>Modelled from the spec: \<open>utils.bufferEquals\<close> is not among the sources; section 4.C
  of the specification describes it as a byte comparison of the two buffers.\<close>

definition bufferEquals :: "buffer \<Rightarrow> buffer \<Rightarrow> bool" where
  "bufferEquals a b = (a = b)"

text \<open>\<open>blobObj.signature\<close> on a \<open>null\<close> parse result is a TypeError; a RangeError of the
  parser passes through \<open>validateNTLMv2Response\<close> uncaught.\<close>

definition validateNTLMv2Response ::
  "(buffer \<Rightarrow> buffer \<Rightarrow> buffer) \<Rightarrow> (jsstring \<Rightarrow> jsstring) \<Rightarrow>
   buffer \<Rightarrow> buffer \<Rightarrow> jsstring \<Rightarrow> jsstring \<Rightarrow> buffer \<Rightarrow> fault + bool" where
  "validateNTLMv2Response hmac_md5 toUpperCase ntlm2Response ntlmHash userName domainName challenge =
    (if length ntlm2Response < 16 + MIN_BLOB_SIZE then Inr False
     else
       (let hash = createNTLM2Hash hmac_md5 toUpperCase ntlmHash userName domainName;
            blob = drop 16 ntlm2Response
        in case parseNTLMv2Blob blob of
             Inl e \<Rightarrow> Inl e
           | Inr None \<Rightarrow> Inl TypeError
           | Inr (Some blobObj) \<Rightarrow>
               if \<not> bufferEquals BLOB_SIGNATURE (signature blobObj) then Inr False
               else
                 (let resp = calculateNTLM2Response hmac_md5 hash blob challenge
                  in Inr (bufferEquals resp ntlm2Response))))"

text \<open>
  The shape of a target-info list in the words of the specification (section 3): entries
  \<open>(type, len, value)\<close> with a non-zero 16-bit type and a 16-bit length, followed by the
  terminating type 0. \<open>eol_terminated blob\<close> says that the bytes of the blob from offset
  28 on start with such a list, so that the terminator lies inside the blob.
\<close>

definition u16le :: "nat \<Rightarrow> buffer" where
  "u16le n = [of_nat (n mod 256), of_nat (n div 256 mod 256)]"

definition encode_entry :: "nat \<times> buffer \<Rightarrow> buffer" where
  "encode_entry e = u16le (fst e) @ u16le (length (snd e)) @ snd e"

definition valid_entry :: "nat \<times> buffer \<Rightarrow> bool" where
  "valid_entry e = (0 < fst e \<and> fst e < 65536 \<and> length (snd e) < 65536)"

definition eol_terminated :: "buffer \<Rightarrow> bool" where
  "eol_terminated blob =
     (\<exists>entries rest. list_all valid_entry entries \<and>
        drop 28 blob = concat (map encode_entry entries) @ u16le EOL @ rest)"

definition well_formed_blob :: "buffer \<Rightarrow> bool" where
  "well_formed_blob blob =
     (MIN_BLOB_SIZE \<le> length blob \<and> take 4 blob = BLOB_SIGNATURE \<and> eol_terminated blob)"

text \<open>Flipping bit \<open>i\<close> of a buffer (bit \<open>i mod 8\<close> of byte \<open>i div 8\<close>).\<close>

definition flip_bit_at :: "nat \<Rightarrow> buffer \<Rightarrow> buffer" where
  "flip_bit_at i b = b[i div 8 := (b ! (i div 8)) XOR push_bit (i mod 8) 1]"

text \<open>A stand-in for the HMAC parameter where a closed instance is evaluated: a function
  with 16-byte results that depends on the key and on every byte of the data.\<close>

definition sample_mac :: "buffer \<Rightarrow> buffer \<Rightarrow> buffer" where
  "sample_mac key d = map (\<lambda>k. k XOR sum_list d) (take 16 (key @ replicate 16 0))"

text \<open>The response a client computes for a blob: \<open>calculateNTLM2Response\<close> applied to
  the hash \<open>createNTLM2Hash\<close> returns.\<close>

definition ntlm2_response ::
  "(buffer \<Rightarrow> buffer \<Rightarrow> buffer) \<Rightarrow> (jsstring \<Rightarrow> jsstring) \<Rightarrow>
   buffer \<Rightarrow> jsstring \<Rightarrow> jsstring \<Rightarrow> buffer \<Rightarrow> buffer \<Rightarrow> buffer" where
  "ntlm2_response hmac_md5 toUpperCase ntlmHash userName domainName blob challenge =
     calculateNTLM2Response hmac_md5
       (createNTLM2Hash hmac_md5 toUpperCase ntlmHash userName domainName) blob challenge"

text \<open>The type the loop sees first in front of a list of entries.\<close>

definition first_type :: "(nat \<times> buffer) list \<Rightarrow> nat" where
  "first_type es = (case es of [] \<Rightarrow> EOL | e # _ \<Rightarrow> fst e)"

text \<open>Three blobs with the right signature. The first (36 bytes) has the attribute type
  0xffff with the length 0xffff at offset 28 and no terminator; the second (36 bytes) has
  an empty attribute list, that is the terminator at offset 28; the third (42 bytes) has
  one attribute (type 2, two bytes) and the terminator.\<close>

definition unterminated_blob :: buffer where
  "unterminated_blob = [1, 1, 0, 0] @ replicate 24 0 @ replicate 8 0xff"

definition eol_only_blob :: buffer where
  "eol_only_blob = [1, 1, 0, 0] @ replicate 24 0 @ [0, 0] @ [0, 0, 0xff, 0xff, 0xff, 0xff]"

definition terminated_blob :: buffer where
  "terminated_blob =
     [1, 1, 0, 0] @ replicate 24 0 @ [2, 0, 2, 0, 0x41, 0] @ [0, 0] @ [0, 0, 0xff, 0xff, 0xff, 0xff]"

text \<open>Scenario 3 of the specification for closed instances: user \<open>User\<close>, domain
  \<open>Domain\<close>, the NTLM hash of \<open>Password\<close> and the server challenge
  \<open>0123456789ABCDEF\<close>; \<open>ascii_upper\<close> stands in for \<open>toUpperCase\<close>.\<close>

definition ascii_upper :: "jsstring \<Rightarrow> jsstring" where
  "ascii_upper s = map (\<lambda>c. if 0x61 \<le> c \<and> c \<le> 0x7a then c - 0x20 else c) s"

definition sample_user :: jsstring where
  "sample_user = [0x55, 0x73, 0x65, 0x72]"

definition sample_domain :: jsstring where
  "sample_domain = [0x44, 0x6f, 0x6d, 0x61, 0x69, 0x6e]"

definition sample_ntlm_hash :: buffer where
  "sample_ntlm_hash =
     [0x88, 0x46, 0xf7, 0xea, 0xee, 0x8f, 0xb1, 0x17, 0xad, 0x06, 0xbd, 0xd8, 0x30, 0xb7, 0x58, 0x6c]"

definition sample_challenge :: buffer where
  "sample_challenge = [0x01, 0x23, 0x45, 0x67, 0x89, 0xab, 0xcd, 0xef]"

definition sample_response :: "buffer \<Rightarrow> buffer" where
  "sample_response blob =
     ntlm2_response sample_mac ascii_upper sample_ntlm_hash sample_user sample_domain blob
       sample_challenge"

definition sample_validate :: "buffer \<Rightarrow> fault + bool" where
  "sample_validate resp =
     validateNTLMv2Response sample_mac ascii_upper resp sample_ntlm_hash sample_user
       sample_domain sample_challenge"

section \<open>The Rectifier (lib/backends/sharelist, the ranged prefetcher)\<close>

text \<open>
  The upstream HTTP request object (\<open>this.req\<close>), as far as the Rectifier drives it:
  \<open>pause()\<close>, \<open>resume()\<close> and \<open>abort()\<close>.
\<close>

record request =
  flowing :: bool
  aborted :: bool

text \<open>
  The only waiter the repository registers is the closure of \<open>readFile\<close>,
  \<open>(rectifier) => rectifier.read(buffer, offset, length, position, cb)\<close>. A waiter is
  therefore the tuple of the arguments it captured; \<open>rq_cb\<close> names the continuation
  \<open>cb\<close> that \<open>read\<close> calls in the end.
\<close>

record read_req =
  rq_buffer :: buffer
  rq_offset :: nat
  rq_length :: nat
  rq_position :: nat
  rq_cb :: nat

type_synonym task = "nat \<times> read_req"

text \<open>The fields \<open>size\<close> and \<open>length\<close> of the source are \<open>size_r\<close> and \<open>length_r\<close>
  here. Positions and sizes are byte counts (unsigned on the wire), so they are naturals;
  the differences the source compares are taken in the integers.\<close>

record rectifier =
  offset :: nat
  size_r :: nat
  buffers :: "buffer list"
  position :: nat
  tasks :: "task list"
  loaded :: bool
  running :: bool
  closed :: bool
  paused :: bool
  length_r :: nat
  cacheSize :: nat
  req :: "request option"

text \<open>\<open>Math.round(size / 10)\<close> rounds half up, which for a natural \<open>size\<close> is
  \<open>(size + 5) div 10\<close>.\<close>

definition new_Rectifier :: "nat \<Rightarrow> nat \<Rightarrow> rectifier" where
  "new_Rectifier sz off =
     \<lparr> offset = off, size_r = sz, buffers = [], position = off, tasks = [],
       loaded = False, running = False, closed = False, paused = False,
       length_r = 0, cacheSize = max ((sz + 5) div 10) (2 * 1024 * 1024), req = None \<rparr>"

definition reset :: "rectifier \<Rightarrow> rectifier" where
  "reset r = r\<lparr> tasks := [], loaded := False, running := False \<rparr>"

subsection \<open>read\<close>

text \<open>
  The inner \<open>for\<close> loop over one chunk \<open>b\<close>: it writes \<open>buffer[index++] = b[i]\<close> (a
  write past the end of a Buffer is dropped, as \<open>list_update\<close> does) and stops when
  \<open>index == length\<close>, handing back the rest of the chunk, \<open>b.slice(i + 1)\<close>.
\<close>

fun copy_chunk :: "buffer \<Rightarrow> buffer \<Rightarrow> nat \<Rightarrow> nat \<Rightarrow> buffer \<times> nat \<times> buffer option" where
  "copy_chunk [] buffer index len = (buffer, index, None)"
| "copy_chunk (x # b) buffer index len =
     (let buffer' = buffer[index := x]; index' = index + 1
      in if index' = len then (buffer', index', Some b)
         else copy_chunk b buffer' index' len)"

text \<open>The outer \<open>while (null != (b = this.buffers.shift()))\<close> loop. The result is the
  queue that is left, the destination buffer and \<open>flag\<close>.\<close>

fun drain :: "buffer list \<Rightarrow> buffer \<Rightarrow> nat \<Rightarrow> nat \<Rightarrow> buffer list \<times> buffer \<times> bool" where
  "drain [] buffer index len = ([], buffer, False)"
| "drain (b # bs) buffer index len =
     (case copy_chunk b buffer index len of
        (buffer', index', Some rest) \<Rightarrow> (rest # bs, buffer', True)
      | (buffer', index', None) \<Rightarrow> drain bs buffer' index' len)"

text \<open>\<open>read\<close> returns the Rectifier and the arguments \<open>(length, buffer)\<close> of its call
  \<open>cb(null, length, buffer)\<close>. \<open>this.length -= length\<close> stands inside the branch that
  sets \<open>flag\<close>.\<close>

definition read :: "rectifier \<Rightarrow> buffer \<Rightarrow> nat \<Rightarrow> nat \<Rightarrow> nat \<Rightarrow> rectifier \<times> nat \<times> buffer" where
  "read r buffer off len pos =
     (let len = (if len > length_r r then length_r r else len);
          index = off
      in case drain (buffers r) buffer index len of
           (bufs, buffer', flag) \<Rightarrow>
             (r\<lparr> buffers := bufs,
                 length_r := (if flag then length_r r - len else length_r r) \<rparr>,
              len, buffer'))"

subsection \<open>updateTask, when, the stream events and close\<close>

text \<open>What a fired waiter delivers: the continuation and the arguments of
  \<open>cb(null, length, buffer)\<close>.\<close>

datatype delivery = Delivered nat nat buffer

definition invoke :: "read_req \<Rightarrow> rectifier \<Rightarrow> rectifier \<times> delivery" where
  "invoke w r =
     (case read r (rq_buffer w) (rq_offset w) (rq_length w) (rq_position w) of
        (r', n, buf) \<Rightarrow> (r', Delivered (rq_cb w) n buf))"

text \<open>\<open>Math.max(...tasks.map(i => i[0]), 0)\<close>.\<close>

definition farestChunk :: "task list \<Rightarrow> nat" where
  "farestChunk ts = foldr max (map fst ts) 0"

text \<open>The \<open>for (let i of tasks)\<close> loop. \<open>position\<close> and \<open>size\<close> are the values
  destructured when \<open>updateTask\<close> was entered; \<open>this.loaded\<close> is read from the object.\<close>

fun run_tasks ::
  "nat \<Rightarrow> nat \<Rightarrow> task list \<Rightarrow> rectifier \<Rightarrow> task list \<Rightarrow> delivery list
   \<Rightarrow> rectifier \<times> task list \<times> delivery list" where
  "run_tasks pos sz [] r undone out = (r, undone, out)"
| "run_tasks pos sz ((p, cb) # ts) r undone out =
     (if p \<le> pos then
        (case invoke cb r of (r', d) \<Rightarrow> run_tasks pos sz ts r' undone (out @ [d]))
      else if p > sz then
        (if loaded r then
           (case invoke cb r of (r', d) \<Rightarrow> run_tasks pos sz ts r' undone (out @ [d]))
         else run_tasks pos sz ts r (undone @ [(p, cb)]) out)
      else run_tasks pos sz ts r (undone @ [(p, cb)]) out)"

text \<open>\<open>this.req.pause()\<close> and \<open>this.req.resume()\<close> are a TypeError when no request
  has been started. \<open>position - farestChunk < this.cacheSize / 5\<close> is a comparison of
  an integer with a fifth of an integer, that is \<open>5 * (position - farestChunk) <
  cacheSize\<close>.\<close>

definition pause_or_resume :: "rectifier \<Rightarrow> fault + rectifier" where
  "pause_or_resume r =
     (let farest = farestChunk (tasks r)
      in if int (position r) - int farest > int (cacheSize r) then
           (case req r of
              None \<Rightarrow> Inl TypeError
            | Some q \<Rightarrow> Inr (r\<lparr> req := Some (q\<lparr> flowing := False \<rparr>), paused := True \<rparr>))
         else if 5 * (int (position r) - int farest) < int (cacheSize r) then
           (if paused r then
              (case req r of
                 None \<Rightarrow> Inl TypeError
               | Some q \<Rightarrow> Inr (r\<lparr> req := Some (q\<lparr> flowing := True \<rparr>), paused := False \<rparr>))
            else Inr r)
         else Inr r)"

definition updateTask :: "rectifier \<Rightarrow> fault + (rectifier \<times> delivery list)" where
  "updateTask r =
     (case pause_or_resume r of
        Inl e \<Rightarrow> Inl e
      | Inr r1 \<Rightarrow>
          (case run_tasks (position r) (size_r r) (tasks r) r1 [] [] of
             (r2, undone, out) \<Rightarrow> Inr (r2\<lparr> tasks := undone \<rparr>, out)))"

text \<open>
  \<open>invoke\<close>, \<open>run_tasks\<close> and \<open>updateTask\<close> above are the loop for waiters whose
  continuation returns into the loop without calling the Rectifier again. The
  continuation \<open>cb\<close> of \<open>read\<close> is a closure of the caller, and \<open>read\<close> calls it
  synchronously, inside \<open>cb(this)\<close> of the loop: for a READ_ANDX request it is the
  continuation of the handler, which goes on with the next command of the same message,
  and when that command is a CLOSE of the same file, \<open>closeFile\<close> calls
  \<open>file.rectifier.close(cb)\<close> before control is back in the loop. What the continuation
  named \<open>c\<close> does to the Rectifier before it returns is \<open>react c\<close>, a parameter of the
  run. (A second \<open>when\<close> on the same Rectifier does not occur: \<open>readFile\<close> builds a
  new Rectifier for every read.)
\<close>

datatype reaction = Returns | CallsClose

definition start :: "rectifier \<Rightarrow> rectifier" where
  "start r = r\<lparr> req := Some \<lparr> flowing = True, aborted = False \<rparr> \<rparr>"

text \<open>\<open>close\<close> returns the Rectifier and whether its callback was called (it is called
  only when a request exists).\<close>

definition close :: "rectifier \<Rightarrow> rectifier \<times> bool" where
  "close r =
     (let r1 = r\<lparr> tasks := [], loaded := False, closed := True \<rparr>
      in case req r1 of
           Some q \<Rightarrow> (r1\<lparr> req := Some (q\<lparr> aborted := True \<rparr>) \<rparr>, True)
         | None \<Rightarrow> (r1, False))"

text \<open>\<open>cb(this)\<close> for a waiter whose continuation may call \<open>close\<close>: \<open>read\<close> runs, calls
  the continuation, and the continuation's call of \<open>close\<close> has changed \<open>this\<close> when
  \<open>cb(this)\<close> returns.\<close>

definition invoke_calling :: "(nat \<Rightarrow> reaction) \<Rightarrow> read_req \<Rightarrow> rectifier \<Rightarrow> rectifier \<times> delivery" where
  "invoke_calling react w r =
     (case read r (rq_buffer w) (rq_offset w) (rq_length w) (rq_position w) of
        (r', n, buf) \<Rightarrow>
          (case react (rq_cb w) of
             Returns \<Rightarrow> (r', Delivered (rq_cb w) n buf)
           | CallsClose \<Rightarrow> (fst (close r'), Delivered (rq_cb w) n buf)))"

text \<open>The \<open>for (let i of tasks)\<close> loop again. It runs over the array that was
  destructured when \<open>updateTask\<close> was entered, whatever a continuation has assigned to
  \<open>this.tasks\<close> in between, and reads \<open>this.loaded\<close> from the object at every task.\<close>

fun run_tasks_calling ::
  "(nat \<Rightarrow> reaction) \<Rightarrow> nat \<Rightarrow> nat \<Rightarrow> task list \<Rightarrow> rectifier \<Rightarrow> task list \<Rightarrow> delivery list
   \<Rightarrow> rectifier \<times> task list \<times> delivery list" where
  "run_tasks_calling react pos sz [] r undone out = (r, undone, out)"
| "run_tasks_calling react pos sz ((p, cb) # ts) r undone out =
     (if p \<le> pos then
        (case invoke_calling react cb r of
           (r', d) \<Rightarrow> run_tasks_calling react pos sz ts r' undone (out @ [d]))
      else if p > sz then
        (if loaded r then
           (case invoke_calling react cb r of
              (r', d) \<Rightarrow> run_tasks_calling react pos sz ts r' undone (out @ [d]))
         else run_tasks_calling react pos sz ts r (undone @ [(p, cb)]) out)
      else run_tasks_calling react pos sz ts r (undone @ [(p, cb)]) out)"

text \<open>\<open>this.tasks = undone\<close> is the last statement: it overwrites what a \<open>close\<close> made
  inside the loop has assigned.\<close>

definition updateTask_calling ::
  "(nat \<Rightarrow> reaction) \<Rightarrow> rectifier \<Rightarrow> fault + (rectifier \<times> delivery list)" where
  "updateTask_calling react r =
     (case pause_or_resume r of
        Inl e \<Rightarrow> Inl e
      | Inr r1 \<Rightarrow>
          (case run_tasks_calling react (position r) (size_r r) (tasks r) r1 [] [] of
             (r2, undone, out) \<Rightarrow> Inr (r2\<lparr> tasks := undone \<rparr>, out)))"

text \<open>\<open>when\<close> is a keyword of Isabelle: the method is \<open>when_r\<close> here.\<close>

definition when_r ::
  "(nat \<Rightarrow> reaction) \<Rightarrow> rectifier \<Rightarrow> nat \<Rightarrow> read_req \<Rightarrow> fault + (rectifier \<times> delivery list)" where
  "when_r react r pos cb =
     (if closed r then Inr (r, [])
      else
        (let r1 = r\<lparr> tasks := tasks r @ [(pos, cb)] \<rparr>;
             r2 = (if \<not> running r1 then (start r1)\<lparr> running := True \<rparr> else r1)
         in updateTask_calling react r2))"

text \<open>The handlers \<open>start\<close> registers on the request and on its response.\<close>

definition on_response :: "rectifier \<Rightarrow> nat \<Rightarrow> rectifier" where
  "on_response r statusCode =
     (if statusCode \<noteq> 206 then r\<lparr> offset := 0, position := 0 \<rparr> else r)"

definition on_data ::
  "(nat \<Rightarrow> reaction) \<Rightarrow> rectifier \<Rightarrow> buffer \<Rightarrow> fault + (rectifier \<times> delivery list)" where
  "on_data react r chunk =
     (let bytesRead = length chunk
      in updateTask_calling react
           (r\<lparr> buffers := buffers r @ [chunk],
               length_r := length_r r + bytesRead,
               position := position r + bytesRead \<rparr>))"

definition on_end :: "(nat \<Rightarrow> reaction) \<Rightarrow> rectifier \<Rightarrow> fault + (rectifier \<times> delivery list)" where
  "on_end react r = updateTask_calling react (r\<lparr> loaded := True \<rparr>)"

text \<open>
  Everything that can happen to a Rectifier from outside after it was built, one step at
  a time: a call of \<open>when\<close>, \<open>close\<close> or \<open>reset\<close> made while no \<open>updateTask\<close> is
  running, or an event of the HTTP stream. What the continuations of the waiters do
  inside a step is \<open>react\<close>. The stream handlers exist only on a request that \<open>start\<close>
  created, so a stream event on a Rectifier without a request is no step at all.
\<close>

datatype rect_op = When nat read_req | OnResponse nat | OnData buffer | OnEnd | Close | Reset

fun step :: "(nat \<Rightarrow> reaction) \<Rightarrow> rect_op \<Rightarrow> rectifier \<Rightarrow> fault + (rectifier \<times> delivery list)" where
  "step react (When pos cb) r = when_r react r pos cb"
| "step react (OnResponse code) r =
     (if req r = None then Inr (r, []) else Inr (on_response r code, []))"
| "step react (OnData chunk) r = (if req r = None then Inr (r, []) else on_data react r chunk)"
| "step react OnEnd r = (if req r = None then Inr (r, []) else on_end react r)"
| "step react Close r = Inr (fst (close r), [])"
| "step react Reset r = Inr (reset r, [])"

text \<open>A run of steps stops at the first fault; it returns the last state, every delivery
  made and the fault, if any.\<close>

fun exec ::
  "(nat \<Rightarrow> reaction) \<Rightarrow> rect_op list \<Rightarrow> rectifier \<Rightarrow> rectifier \<times> delivery list \<times> fault option" where
  "exec react [] r = (r, [], None)"
| "exec react (x # xs) r =
     (case step react x r of
        Inl e \<Rightarrow> (r, [], Some e)
      | Inr (r', ds) \<Rightarrow> (case exec react xs r' of (r'', ds', e) \<Rightarrow> (r'', ds @ ds', e)))"

text \<open>
  The words of the claims about \<open>updateTask\<close>: a task fires when its target is at most
  the position, or beyond the size while the stream has ended. \<open>delivered_cb\<close> names the
  continuation a delivery went to.
\<close>

definition fires :: "rectifier \<Rightarrow> nat \<Rightarrow> bool" where
  "fires r p = (p \<le> position r \<or> (p > size_r r \<and> loaded r))"

fun delivered_cb :: "delivery \<Rightarrow> nat" where
  "delivered_cb (Delivered c n b) = c"

text \<open>
  The same words when continuations may close the file: \<open>ld\<close> is \<open>loaded\<close> at the entry
  of \<open>updateTask\<close>, and \<open>this.loaded\<close> is still \<open>ld\<close> when the loop reaches a task unless
  a task before it in the list has fired with a continuation that calls \<open>close\<close>.
\<close>

definition fires_at :: "(nat \<Rightarrow> reaction) \<Rightarrow> nat \<Rightarrow> nat \<Rightarrow> bool \<Rightarrow> task list \<Rightarrow> nat \<Rightarrow> bool" where
  "fires_at react pos sz ld before p =
     (p \<le> pos \<or> (p > sz \<and> ld
        \<and> (\<forall>t \<in> set before. (fst t \<le> pos \<or> (fst t > sz \<and> ld)) \<longrightarrow> react (rq_cb (snd t)) = Returns)))"


text \<open>A Rectifier for closed instances: built for a 4-byte file from offset 0, started,
  with the one chunk \<open>[1, 2, 3, 4]\<close> received.\<close>

definition sample_rectifier :: rectifier where
  "sample_rectifier =
     (start (new_Rectifier 4 0))\<lparr> running := True, buffers := [[1, 2, 3, 4]],
                                  length_r := 4, position := 4 \<rparr>"

definition sample_waiter :: "nat \<Rightarrow> read_req" where
  "sample_waiter c =
     \<lparr> rq_buffer = replicate 4 0, rq_offset = 0, rq_length = 2, rq_position = 0, rq_cb = c \<rparr>"

definition sample_rectifier_tasks :: rectifier where
  "sample_rectifier_tasks =
     sample_rectifier\<lparr> tasks := [(2, sample_waiter 1), (9, sample_waiter 2)] \<rparr>"


text \<open>Three waiters for the positions 5, 6 and 9 on the sample Rectifier, and
  continuations of which the first one closes the file.\<close>

definition sample_rectifier_three :: rectifier where
  "sample_rectifier_three =
     sample_rectifier\<lparr> tasks := [(5, sample_waiter 1), (6, sample_waiter 2), (9, sample_waiter 3)] \<rparr>"

definition sample_reaction :: "nat \<Rightarrow> reaction" where
  "sample_reaction c = (if c = 1 then CallsClose else Returns)"

section \<open>NTSTATUS values, errors and handler results\<close>

text \<open>
  \<open>lib/ntstatus.js\<close> and \<open>lib/smb/constants.js\<close> are not among the sources. The status
  codes the code names are the constructors of \<open>ntstatus\<close>; as in the NTSTATUS table
  they are pairwise different, and \<open>STATUS_SUCCESS\<close> (zero) is the only falsy one. The
  constants of \<open>constants.js\<close>, \<open>common.js\<close> and \<open>utils.js\<close> that the handlers
  use are the fields of \<open>externals\<close>, a parameter of every handler.
\<close>

datatype ntstatus =
    STATUS_SUCCESS
  | STATUS_MORE_PROCESSING_REQUIRED
  | STATUS_SMB_BAD_COMMAND
  | STATUS_NOT_IMPLEMENTED
  | STATUS_SMB_BAD_TID
  | STATUS_SMB_BAD_FID
  | STATUS_NOT_SUPPORTED
  | STATUS_UNSUCCESSFUL
  | STATUS_FILE_IS_A_DIRECTORY
  | STATUS_NO_SUCH_FILE
  | STATUS_SMB_NO_SUPPORT
  | STATUS_OTHER nat

text \<open>An error object handed to a callback; \<open>err.status\<close> can be missing.\<close>

record smb_error =
  err_status :: "ntstatus option"
  err_message :: string

text \<open>\<open>err.status || ntstatus.STATUS_UNSUCCESSFUL\<close>.\<close>

definition status_or :: "ntstatus option \<Rightarrow> ntstatus \<Rightarrow> ntstatus" where
  "status_or s d =
     (case s of None \<Rightarrow> d | Some x \<Rightarrow> if x = STATUS_SUCCESS then d else x)"

text \<open>The \<open>params\<close> of a result are a Buffer, except where a handler stores an NTSTATUS
  number in the field.\<close>

datatype jsval = Buf buffer | Num ntstatus

record result =
  res_status :: ntstatus
  res_params :: jsval
  res_data :: buffer
  res_wordCount :: "nat option"
  res_byteCount :: "nat option"

definition EMPTY_BUFFER :: buffer where
  "EMPTY_BUFFER = []"

definition plain_result :: "ntstatus \<Rightarrow> jsval \<Rightarrow> buffer \<Rightarrow> result" where
  "plain_result st ps d =
     \<lparr> res_status = st, res_params = ps, res_data = d,
       res_wordCount = None, res_byteCount = None \<rparr>"

text \<open>The result every failing branch of a handler builds:
  \<open>{status, params: EMPTY_BUFFER, data: EMPTY_BUFFER}\<close>.\<close>

definition failure :: "ntstatus \<Rightarrow> result" where
  "failure st = plain_result st (Buf EMPTY_BUFFER) EMPTY_BUFFER"

section \<open>The command dispatcher (lib/smb/handler.js)\<close>

record command =
  commandId :: nat
  wordCount :: nat
  params :: jsval
  byteCount :: nat
  data :: buffer
  paramsOffset :: nat
  dataOffset :: nat

record flags =
  reply :: bool
  ntStatus :: bool
  unicode :: bool
  pathnames_long_supported :: bool

record header =
  status :: ntstatus
  hflags :: flags
  tid :: nat
  pid :: nat
  uid :: nat
  mid :: nat

record message =
  header :: header
  commands :: "command list"
  processed :: bool

text \<open>
  A command handler, seen from the dispatcher: it ends with a fault (caught by the
  domain, whose error handler calls \<open>process.exit(1)\<close>), or it calls the continuation
  with no result (\<open>None\<close>) or with a result. The handlers of this repository leave
  \<open>msg.header\<close>, \<open>msg.commands\<close> and \<open>msg.processed\<close> alone; the fields they add to
  \<open>msg\<close> with \<open>_.assign\<close> are never read by the dispatcher.
\<close>

type_synonym handler = "message \<Rightarrow> command \<Rightarrow> fault + result option"

text \<open>What the dispatcher does to the outside: a call of the per-command \<open>callback\<close> of
  \<open>async.eachSeries\<close> (for the command at an index, with the error status if any), a raw
  message handed to the connection, the final \<open>cb()\<close> without a response, or the exit of
  the process.\<close>

datatype effect =
    Continuation nat "ntstatus option"
  | SendRawMessage message
  | Completed
  | ProcessExit

text \<open>\<open>sendResponse\<close> sets the reply flags and the status; the message it leaves is
  what goes to \<open>message.encode\<close> and the connection.\<close>

definition sendResponse :: "message \<Rightarrow> ntstatus \<Rightarrow> message" where
  "sendResponse msg st =
     msg\<lparr> header := (header msg)\<lparr>
            hflags := (hflags (header msg))\<lparr> reply := True, ntStatus := True, unicode := True,
                                             pathnames_long_supported := True \<rparr>,
            status := st \<rparr> \<rparr>"

text \<open>The final callback of \<open>async.eachSeries\<close>.\<close>

definition final_callback :: "message \<Rightarrow> ntstatus option \<Rightarrow> effect list" where
  "final_callback msg err =
     (case err of
        Some st \<Rightarrow> [SendRawMessage (sendResponse msg st)]
      | None \<Rightarrow>
          if processed msg then [Completed]
          else [SendRawMessage (sendResponse msg
                  (if status (header msg) \<noteq> STATUS_SUCCESS then status (header msg)
                   else STATUS_SUCCESS))])"

text \<open>The success branch of the continuation: the result is stashed in the command.
  \<open>if (result.wordCount)\<close> and \<open>if (result.byteCount)\<close> are truthiness tests.\<close>

definition stash :: "command \<Rightarrow> result \<Rightarrow> command" where
  "stash cmd res =
     cmd\<lparr> params := res_params res,
          wordCount := (case res_wordCount res of
                          Some n \<Rightarrow> if n \<noteq> 0 then n else wordCount cmd
                        | None \<Rightarrow> wordCount cmd),
          data := res_data res,
          byteCount := (case res_byteCount res of
                          Some n \<Rightarrow> if n \<noteq> 0 then n else byteCount cmd
                        | None \<Rightarrow> byteCount cmd) \<rparr>"

text \<open>
  The iterator of \<open>async.eachSeries(msg.commands, ...)\<close> over the commands from index
  \<open>i\<close> on. \<open>async.eachSeries\<close> (a library) runs the iterator on one element after the
  other and calls the final callback at the first error or after the last element.
  \<open>tbl\<close> is \<open>SMB.COMMAND_TO_STRING\<close> and \<open>hs\<close> is \<open>cmdHandlers\<close>, keyed by the file
  names of the handler directory.

  For a command id without an entry, \<open>command\<close> is \<open>undefined\<close>. The branch calls
  \<open>callback\<close> with \<open>STATUS_SMB_BAD_COMMAND\<close>, which runs the final callback at once,
  and has no \<open>return\<close>: control goes on to \<open>cmdHandlers[command]\<close>, the property named
  \<open>undefined\<close>. When there is none, the \<open>else\<close> branch builds its message with
  \<open>command.toUpperCase()\<close>, a TypeError, before it can call \<open>callback\<close>. When there
  is one it runs inside a domain and calls \<open>callback\<close> a second time (what \<open>async\<close>
  does with a second call depends on its version, and the model stops there), or it fails
  and the error message, again built with \<open>command.toUpperCase()\<close>, raises the
  TypeError inside the domain.

  The continuation of a handler runs inside the domain of that handler (\<open>d.run\<close>, and
  the callbacks it schedules, are bound to the domain), and \<open>async.eachSeries\<close> starts
  the next iteration from that continuation. \<open>inDomain\<close> says whether the iteration runs
  behind a handler: the TypeError of the branch for a missing handler is uncaught for the
  first command of a message, and behind a handler it reaches the error handler of that
  handler's domain, which exits the process.
\<close>

fun iterate ::
  "(nat \<Rightarrow> string option) \<Rightarrow> (string \<Rightarrow> handler option) \<Rightarrow> bool \<Rightarrow> message \<Rightarrow> nat
   \<Rightarrow> command list \<Rightarrow> message \<times> effect list \<times> fault option" where
  "iterate tbl hs inDomain msg i [] = (msg, final_callback msg None, None)"
| "iterate tbl hs inDomain msg i (cmd # rest) =
     (case tbl (commandId cmd) of
        None \<Rightarrow>
          (let sent = Continuation i (Some STATUS_SMB_BAD_COMMAND)
                      # final_callback msg (Some STATUS_SMB_BAD_COMMAND)
           in case hs ''undefined'' of
                None \<Rightarrow>
                  if inDomain then (msg, sent @ [ProcessExit], None)
                  else (msg, sent, Some TypeError)
              | Some h \<Rightarrow>
                  (case h msg cmd of
                     Inl e \<Rightarrow> (msg, sent @ [ProcessExit], None)
                   | Inr None \<Rightarrow> (msg\<lparr> processed := True \<rparr>, sent @ [Continuation i None], None)
                   | Inr (Some res) \<Rightarrow>
                       if res_status res = STATUS_SUCCESS
                          \<or> res_status res = STATUS_MORE_PROCESSING_REQUIRED
                       then (msg\<lparr> commands := (commands msg)[i := stash cmd res],
                                   header := (if res_status res = STATUS_MORE_PROCESSING_REQUIRED
                                              then (header msg)\<lparr> status := res_status res \<rparr>
                                              else header msg) \<rparr>,
                             sent @ [Continuation i None], None)
                       else (msg, sent @ [ProcessExit], None)))
      | Some command \<Rightarrow>
          (case hs command of
             None \<Rightarrow>
               (msg, Continuation i (Some STATUS_NOT_IMPLEMENTED)
                     # final_callback msg (Some STATUS_NOT_IMPLEMENTED), None)
           | Some h \<Rightarrow>
               (case h msg cmd of
                  Inl e \<Rightarrow> (msg, [ProcessExit], None)
                | Inr None \<Rightarrow>
                    (case iterate tbl hs True (msg\<lparr> processed := True \<rparr>) (i + 1) rest of
                       (msg', effs, e) \<Rightarrow> (msg', Continuation i None # effs, e))
                | Inr (Some res) \<Rightarrow>
                    if res_status res = STATUS_SUCCESS
                       \<or> res_status res = STATUS_MORE_PROCESSING_REQUIRED
                    then
                      (case iterate tbl hs True
                              (msg\<lparr> commands := (commands msg)[i := stash cmd res],
                                    header := (if res_status res = STATUS_MORE_PROCESSING_REQUIRED
                                               then (header msg)\<lparr> status := res_status res \<rparr>
                                               else header msg) \<rparr>)
                              (i + 1) rest of
                         (msg', effs, e) \<Rightarrow> (msg', Continuation i None # effs, e))
                    else
                      (msg, Continuation i (Some (res_status res))
                            # final_callback msg (Some (res_status res)), None))))"

definition handleRequest' ::
  "(nat \<Rightarrow> string option) \<Rightarrow> (string \<Rightarrow> handler option) \<Rightarrow> message
   \<Rightarrow> message \<times> effect list \<times> fault option" where
  "handleRequest' tbl hs msg = iterate tbl hs False msg 0 (commands msg)"

text \<open>A sample of the tables for closed instances: the ids 0x04 and 0x2e are known, and
  only \<open>close\<close> has a handler, which succeeds with empty buffers.\<close>

definition sample_table :: "nat \<Rightarrow> string option" where
  "sample_table n = (if n = 0x04 then Some ''close'' else if n = 0x2e then Some ''read_andx'' else None)"

definition sample_handlers :: "string \<Rightarrow> handler option" where
  "sample_handlers n =
     (if n = ''close''
      then Some (\<lambda>msg cmd. Inr (Some (plain_result STATUS_SUCCESS (Buf EMPTY_BUFFER) EMPTY_BUFFER)))
      else None)"

definition sample_command :: "nat \<Rightarrow> command" where
  "sample_command n =
     \<lparr> commandId = n, wordCount = 0, params = Buf [], byteCount = 0, data = [],
       paramsOffset = 33, dataOffset = 35 \<rparr>"

definition sample_message :: "command list \<Rightarrow> message" where
  "sample_message cs =
     \<lparr> header = \<lparr> status = STATUS_SUCCESS,
                  hflags = \<lparr> reply = False, ntStatus = True, unicode = True,
                             pathnames_long_supported = True \<rparr>,
                  tid = 1, pid = 2, uid = 3, mid = 4 \<rparr>,
       commands = cs, processed = False \<rparr>"

section \<open>Command handlers (lib/smb/cmd)\<close>

subsection \<open>The service interface and the helpers the handlers use\<close>

text \<open>
  A handler sees the backend through \<open>server.getTree(tid)\<close> and the tree and file
  objects it returns. A file is the record of what its getters return; the answers of the
  tree's asynchronous operations (the arguments of their callbacks) are functions of the
  tree. A handler returns the calls it made on the backend, in order, and the result it
  handed to its continuation.
\<close>

record smb_file =
  fid :: nat
  path :: jsstring
  isDirectory :: bool
  fileSize :: nat
  createAction :: nat
  attributes :: nat
  allocationSize :: nat
  dataSize :: nat
  createdTime :: nat
  lastModifiedTime :: nat
  lastAccessedTime :: nat
  lastChangedTime :: nat

record tree =
  getFile :: "nat \<Rightarrow> smb_file option"
  isNamedPipe :: bool
  closeFile :: "nat \<Rightarrow> smb_error option"
  openOrCreate :: "jsstring \<Rightarrow> nat \<Rightarrow> bool \<Rightarrow> smb_error + smb_file"
  listFiles :: "jsstring \<Rightarrow> smb_error + smb_file list"
  renameFile :: "smb_file \<Rightarrow> jsstring \<Rightarrow> smb_error option"
  setLength :: "smb_file \<Rightarrow> nat \<Rightarrow> smb_error option"
  deleteFile :: "smb_file \<Rightarrow> smb_error option"
  readFile :: "smb_file \<Rightarrow> nat \<Rightarrow> int \<Rightarrow> smb_error + (nat \<times> buffer)"

datatype backend_call =
    SetLastModifiedTime nat nat
  | CloseFile nat
  | SetDeleteOnClose nat
  | SetLength nat nat
  | Rename nat jsstring
  | DeleteFile nat
  | OpenOrCreate jsstring nat bool
  | ListFiles jsstring
  | ReadFile nat nat int

record externals =
  COMMAND_TO_STRING :: "nat \<Rightarrow> string option"
  TRANS2_SUBCOMMAND_TO_STRING :: "nat \<Rightarrow> string option"
  INFO_PASSTHROUGH :: nat
  FILE_DISPOSITION_INFORMATION :: nat
  FILE_END_OF_FILE_INFORMATION :: nat
  FILE_ALLOCATION_INFORMATION :: nat
  FILE_RENAME_INFORMATION :: nat
  FILE_DIRECTORY_FILE :: nat
  DIRECTORY_ACCESS_ALL :: nat
  FILE_ACCESS_ALL :: nat
  DIRECTORY_ACCESS_READONLY :: nat
  FILE_ACCESS_READONLY :: nat
  ZERO_GUID :: buffer
  targetPathOf :: "jsstring \<Rightarrow> jsstring \<Rightarrow> jsstring"

text \<open>\<open>SMB.COMMAND_TO_STRING[commandId].toUpperCase()\<close> in the arguments of a log call:
  a TypeError for an id without an entry. The handler parameter \<open>commandId\<close> is
  \<open>cmdId\<close> below (\<open>commandId\<close> is the field of a command).\<close>

definition upper_name :: "(nat \<Rightarrow> string option) \<Rightarrow> nat \<Rightarrow> fault + unit" where
  "upper_name tbl cmdId = (case tbl cmdId of None \<Rightarrow> Inl TypeError | Some n \<Rightarrow> Inr ())"

text \<open>Modelled from the spec: \<open>utils.calculatePadLength\<close> is not among the sources;
  section 4.A has it return the bytes to skip to the next boundary.\<close>

definition calculatePadLength :: "nat \<Rightarrow> nat \<Rightarrow> nat" where
  "calculatePadLength off alignment = (alignment - off mod alignment) mod alignment"

text \<open>Modelled from the spec: \<open>utils.extractUnicodeBytes\<close> is not among the sources;
  section 4.A has it read UTF-16LE code units up to a null terminator and return the
  bytes before it.\<close>

fun unicode_bytes :: "buffer \<Rightarrow> buffer" where
  "unicode_bytes (a # b # rest) = (if a = 0 \<and> b = 0 then [] else a # b # unicode_bytes rest)"
| "unicode_bytes rest = []"

definition extractUnicodeBytes :: "buffer \<Rightarrow> nat \<Rightarrow> buffer" where
  "extractUnicodeBytes buf off = unicode_bytes (drop off buf)"

text \<open>\<open>buf.toString('utf16le')\<close>: two bytes make a code unit, a last odd byte is dropped.\<close>

fun utf16le_string :: "buffer \<Rightarrow> jsstring" where
  "utf16le_string (a # b # rest) = (ucast a OR push_bit 8 (ucast b)) # utf16le_string rest"
| "utf16le_string rest = []"

text \<open>Modelled from the spec: \<open>utils.systemToSMBTime\<close> is not among the sources; section 6
  has SMB time count 100-ns ticks since 1601-01-01 UTC in 64 bits.\<close>

definition systemToSMBTime :: "nat \<Rightarrow> nat" where
  "systemToSMBTime ms = (ms * 10000 + 116444736000000000) mod 2 ^ 64"

text \<open>
  The \<open>long\<close> library: \<open>toNumber()\<close> of a 64-bit value is
  \<open>high * 4294967296 + (low >>> 0)\<close> in double arithmetic, with \<open>high\<close> read as a
  signed 32-bit number for a signed Long (\<open>new Long(low, high)\<close>) and as an unsigned one
  for an unsigned Long (\<open>Long.fromBits(low, high, true)\<close>). The product and \<open>low\<close> are
  exact; the sum is rounded to the nearest double, that is to 53 significant bits, ties
  to even.
\<close>

fun bit_length :: "nat \<Rightarrow> nat" where
  "bit_length n = (if n = 0 then 0 else Suc (bit_length (n div 2)))"

declare bit_length.simps [simp del]

definition round_double :: "nat \<Rightarrow> nat" where
  "round_double n =
     (if n < 2 ^ 53 then n
      else
        (let ulp = 2 ^ (bit_length n - 53);
             q = n div ulp;
             r = n mod ulp;
             q' = (if 2 * r < ulp then q else if 2 * r > ulp then q + 1 else q + q mod 2)
         in q' * ulp))"

definition Long_toNumber :: "nat \<Rightarrow> nat \<Rightarrow> bool \<Rightarrow> int" where
  "Long_toNumber low high isUnsigned =
     (let h = (if isUnsigned then int (high mod 2 ^ 32) else sint (of_nat high :: int32));
          v = h * 2 ^ 32 + int (low mod 2 ^ 32)
      in if v < 0 then - int (round_double (nat (- v))) else int (round_double (nat v)))"

definition getLowBitsUnsigned :: "nat \<Rightarrow> nat" where
  "getLowBitsUnsigned v = v mod 2 ^ 32"

definition getHighBitsUnsigned :: "nat \<Rightarrow> nat" where
  "getHighBitsUnsigned v = v div 2 ^ 32 mod 2 ^ 32"

text \<open>The \<open>put\<close> library: \<open>word8\<close>, \<open>word16le\<close>, \<open>word32le\<close> and \<open>word64le\<close> append
  the low bytes of a number, lowest first.\<close>

definition word_le :: "nat \<Rightarrow> nat \<Rightarrow> buffer" where
  "word_le n v = map (\<lambda>i. of_nat (v div 256 ^ i mod 256)) [0..<n]"

definition word8 :: "nat \<Rightarrow> buffer" where "word8 v = word_le 1 v"
definition word16le :: "nat \<Rightarrow> buffer" where "word16le v = word_le 2 v"
definition word32le :: "nat \<Rightarrow> buffer" where "word32le v = word_le 4 v"
definition word64le :: "nat \<Rightarrow> buffer" where "word64le v = word_le 8 v"

text \<open>\<open>x & mask\<close> used as a condition, for a 32-bit \<open>x\<close>.\<close>

definition has_bits :: "nat \<Rightarrow> nat \<Rightarrow> bool" where
  "has_bits x m = ((of_nat x :: int32) AND of_nat m \<noteq> 0)"

subsection \<open>SMB_COM_CLOSE (close.js)\<close>

definition close_handle ::
  "externals \<Rightarrow> (nat \<Rightarrow> tree option) \<Rightarrow> message \<Rightarrow> nat \<Rightarrow> buffer \<Rightarrow> buffer \<Rightarrow> nat \<Rightarrow> nat
   \<Rightarrow> fault + (backend_call list \<times> result)" where
  "close_handle ext getTree msg cmdId commandParams commandData commandParamsOffset commandDataOffset =
    (case readUInt16LE commandParams 0 of Inl e \<Rightarrow> Inl e | Inr fid' \<Rightarrow>
    (case readUInt32LE commandParams 2 of Inl e \<Rightarrow> Inl e | Inr lastTimeModified \<Rightarrow>
    (case upper_name (COMMAND_TO_STRING ext) cmdId of Inl e \<Rightarrow> Inl e | Inr u \<Rightarrow>
    (case getTree (tid (header msg)) of
       None \<Rightarrow> Inr ([], failure STATUS_SMB_BAD_TID)
     | Some tree \<Rightarrow>
        (case getFile tree fid' of
           None \<Rightarrow> Inr ([], failure STATUS_SMB_BAD_FID)
         | Some file \<Rightarrow>
            (let calls = (if lastTimeModified \<noteq> 0 \<and> lastTimeModified \<noteq> 0xffffffff
                          then [SetLastModifiedTime fid' (lastTimeModified * 1000)] else [])
                         @ [CloseFile fid']
             in case closeFile tree fid' of
                  Some err \<Rightarrow> Inr (calls, failure STATUS_UNSUCCESSFUL)
                | None \<Rightarrow> Inr (calls, failure STATUS_SUCCESS)))))))"

subsection \<open>SMB_COM_DELETE\<close>

text \<open>\<open>async.each\<close> over the matched files: every file is deleted, and the first error
  reaches the final callback.\<close>

definition first_error :: "smb_error option list \<Rightarrow> smb_error option" where
  "first_error es = (case filter (\<lambda>e. e \<noteq> None) es of [] \<Rightarrow> None | e # _ \<Rightarrow> e)"

definition delete_handle ::
  "externals \<Rightarrow> (nat \<Rightarrow> tree option) \<Rightarrow> message \<Rightarrow> nat \<Rightarrow> buffer \<Rightarrow> buffer \<Rightarrow> nat \<Rightarrow> nat
   \<Rightarrow> fault + (backend_call list \<times> result)" where
  "delete_handle ext getTree msg cmdId commandParams commandData commandParamsOffset commandDataOffset =
    (case readUInt16LE commandParams 0 of Inl e \<Rightarrow> Inl e | Inr searchAttributes \<Rightarrow>
    (case readUInt8 commandData 0 of Inl e \<Rightarrow> Inl e | Inr bufferFormat \<Rightarrow>
      (let off = 1 + calculatePadLength (commandDataOffset + 1) 2;
           fileName = utf16le_string (extractUnicodeBytes commandData off)
       in
    (case upper_name (COMMAND_TO_STRING ext) cmdId of Inl e \<Rightarrow> Inl e | Inr u \<Rightarrow>
    (case getTree (tid (header msg)) of
       None \<Rightarrow> Inr ([], failure STATUS_SMB_BAD_TID)
     | Some tree \<Rightarrow>
        (case listFiles tree fileName of
           Inl err \<Rightarrow> Inr ([ListFiles fileName], failure (status_or (err_status err) STATUS_UNSUCCESSFUL))
         | Inr files \<Rightarrow>
            if files = [] then Inr ([ListFiles fileName], failure STATUS_NO_SUCH_FILE)
            else
              Inr (ListFiles fileName # map (\<lambda>f. DeleteFile (fid f)) files,
                   failure (case first_error (map (deleteFile tree) files) of
                              Some err \<Rightarrow> status_or (err_status err) STATUS_UNSUCCESSFUL
                            | None \<Rightarrow> STATUS_SUCCESS))))))))"

subsection \<open>SMB_COM_READ_ANDX\<close>

definition DATA_OFFSET :: nat where
  "DATA_OFFSET = 60"

text \<open>The \<open>binary\<close> parser leaves a field \<open>null\<close> when the buffer ends before it; the
  handler reads \<open>fid\<close>, \<open>offset\<close> and \<open>maxCountOfBytesToReturn\<close> from it. \<open>null\<close>
  counts as 0 in arithmetic, and no file has the id \<open>null\<close>.\<close>

definition field16 :: "buffer \<Rightarrow> nat \<Rightarrow> nat option" where
  "field16 b off = (case readUInt16LE b off of Inl e \<Rightarrow> None | Inr v \<Rightarrow> Some v)"

definition field32 :: "buffer \<Rightarrow> nat \<Rightarrow> nat option" where
  "field32 b off = (case readUInt32LE b off of Inl e \<Rightarrow> None | Inr v \<Rightarrow> Some v)"

definition num_of :: "nat option \<Rightarrow> nat" where
  "num_of v = (case v of None \<Rightarrow> 0 | Some n \<Rightarrow> n)"

text \<open>The callback of \<open>file.read\<close> on success: the response parameters and the data
  (one pad byte, then the bytes read).\<close>

definition read_andx_result :: "buffer \<Rightarrow> nat \<Rightarrow> buffer \<Rightarrow> fault + result" where
  "read_andx_result commandParams bytesRead buf =
    (case readUInt8 commandParams 0 of Inl e \<Rightarrow> Inl e | Inr nextCmd \<Rightarrow>
    (case readUInt16LE commandParams 2 of Inl e \<Rightarrow> Inl e | Inr andXOffset \<Rightarrow>
      (let params' = word8 nextCmd @ word8 0 @ word16le andXOffset
                     @ word16le 0 @ word16le 0 @ word16le 0
                     @ word16le (bytesRead mod 65536)
                     @ word16le DATA_OFFSET
                     @ word16le (bytesRead div 65536)
                     @ replicate 8 0;
           data' = 0 # take bytesRead (buf @ replicate bytesRead 0)
       in Inr (plain_result STATUS_SUCCESS (Buf params') data'))))"

text \<open>The part of the handler behind the TID check. \<open>maxCountHigh << 16\<close> is a signed
  32-bit value, and \<open>new Buffer(n)\<close> raises a RangeError for a negative \<open>n\<close>.\<close>

definition read_andx_tree ::
  "tree \<Rightarrow> buffer \<Rightarrow> nat option \<Rightarrow> int \<Rightarrow> nat option \<Rightarrow> fault + (backend_call list \<times> result)" where
  "read_andx_tree tree commandParams fid' offset' maxCountOfBytesToReturn =
    (case (if \<not> isNamedPipe tree
           then (case readUInt16LE commandParams 14 of
                   Inl e \<Rightarrow> Inl e
                 | Inr maxCountHigh \<Rightarrow>
                     Inr (int (num_of maxCountOfBytesToReturn)
                          + sint (push_bit 16 (of_nat maxCountHigh :: int32))))
           else Inr (int (num_of maxCountOfBytesToReturn))) of
       Inl e \<Rightarrow> Inl e
     | Inr maxCount' \<Rightarrow>
        (case (case fid' of None \<Rightarrow> None | Some f \<Rightarrow> getFile tree f) of
           None \<Rightarrow> Inr ([], failure STATUS_SMB_BAD_FID)
         | Some file \<Rightarrow>
            if isDirectory file then Inr ([], failure STATUS_FILE_IS_A_DIRECTORY)
            else if maxCount' < 0 then Inl RangeError
            else
              (let maxCount = nat maxCount' in
              case readFile tree file maxCount offset' of
                 Inl err \<Rightarrow>
                   Inr ([ReadFile (fid file) maxCount offset'],
                        failure (status_or (err_status err) STATUS_UNSUCCESSFUL))
               | Inr (bytesRead, buf) \<Rightarrow>
                  (case read_andx_result commandParams bytesRead buf of
                     Inl e \<Rightarrow> Inl e
                   | Inr res \<Rightarrow> Inr ([ReadFile (fid file) maxCount offset'], res)))))"

text \<open>\<open>new Long(msg.offset, msg.offsetHigh)\<close> is a signed Long: a high word from
  \<open>0x80000000\<close> on makes the offset handed to \<open>file.read\<close> negative.\<close>

definition read_andx_handle ::
  "externals \<Rightarrow> (nat \<Rightarrow> tree option) \<Rightarrow> message \<Rightarrow> nat \<Rightarrow> buffer \<Rightarrow> buffer \<Rightarrow> nat \<Rightarrow> nat
   \<Rightarrow> fault + (backend_call list \<times> result)" where
  "read_andx_handle ext getTree msg cmdId commandParams commandData commandParamsOffset commandDataOffset =
    (let fid' = field16 commandParams 4;
         offset' = field32 commandParams 6;
         maxCountOfBytesToReturn = field16 commandParams 10
     in
      (case (if length commandParams = 24 then readUInt32LE commandParams 20 else Inr 0) of
         Inl e \<Rightarrow> Inl e
       | Inr offsetHigh \<Rightarrow>
          (let offset' = (if offsetHigh \<noteq> 0 then Long_toNumber (num_of offset') offsetHigh False
                          else int (num_of offset'))
           in
            (case upper_name (COMMAND_TO_STRING ext) cmdId of
               Inl e \<Rightarrow> Inl e
             | Inr u \<Rightarrow>
                (case getTree (tid (header msg)) of
                   None \<Rightarrow> Inr ([], failure STATUS_SMB_BAD_TID)
                 | Some tree \<Rightarrow>
                     read_andx_tree tree commandParams fid' offset' maxCountOfBytesToReturn)))))"

subsection \<open>SMB_COM_NT_CREATE_ANDX (nt_create_andx.js)\<close>

definition NT_CREATE_REQUEST_OPBATCH :: nat where
  "NT_CREATE_REQUEST_OPBATCH = 0x00000004"

definition NT_CREATE_REQUEST_EXTENDED_RESPONSE :: nat where
  "NT_CREATE_REQUEST_EXTENDED_RESPONSE = 0x00000010"

definition NO_EAS :: nat where "NO_EAS = 0x0001"
definition NO_SUBSTREAMS :: nat where "NO_SUBSTREAMS = 0x0002"
definition NO_REPARSETAG :: nat where "NO_REPARSETAG = 0x0004"

text \<open>Section 6 of the specification gives the two resource types.\<close>

definition FILE_TYPE_DISK :: nat where "FILE_TYPE_DISK = 0x0000"
definition FILE_TYPE_MESSAGEMODEPIPE :: nat where "FILE_TYPE_MESSAGEMODEPIPE = 0x0005"

text \<open>\<open>buildResult\<close>: the response parameters written with \<open>put\<close>, and the word count
  override. \<open>params.length / 2 > 0x2a\<close> divides without rounding, so it says
  \<open>params.length > 2 * 0x2a\<close>.\<close>

definition buildResult :: "externals \<Rightarrow> tree \<Rightarrow> nat \<Rightarrow> buffer \<Rightarrow> smb_file \<Rightarrow> fault + result" where
  "buildResult ext tree flags' commandParams file =
    (let smbCreated = systemToSMBTime (createdTime file);
         smbLastModified = systemToSMBTime (lastModifiedTime file);
         smbLastAccessed = systemToSMBTime (lastAccessedTime file);
         smbLastChanged = systemToSMBTime (lastChangedTime file)
     in
    (case readUInt8 commandParams 0 of Inl e \<Rightarrow> Inl e | Inr nextCmd \<Rightarrow>
    (case readUInt16LE commandParams 2 of Inl e \<Rightarrow> Inl e | Inr andXOffset \<Rightarrow>
      (let out = word8 nextCmd
                 @ word8 0
                 @ word16le andXOffset
                 @ word8 (if has_bits flags' NT_CREATE_REQUEST_OPBATCH then 2 else 0)
                 @ word16le (fid file)
                 @ word32le (createAction file)
                 @ word32le (getLowBitsUnsigned smbCreated)
                 @ word32le (getHighBitsUnsigned smbCreated)
                 @ word32le (getLowBitsUnsigned smbLastAccessed)
                 @ word32le (getHighBitsUnsigned smbLastAccessed)
                 @ word32le (getLowBitsUnsigned smbLastModified)
                 @ word32le (getHighBitsUnsigned smbLastModified)
                 @ word32le (getLowBitsUnsigned smbLastChanged)
                 @ word32le (getHighBitsUnsigned smbLastChanged)
                 @ word32le (attributes file)
                 @ word64le (allocationSize file)
                 @ word64le (dataSize file)
                 @ word16le (if isNamedPipe tree then FILE_TYPE_MESSAGEMODEPIPE else FILE_TYPE_DISK);
           out = (if has_bits flags' NT_CREATE_REQUEST_EXTENDED_RESPONSE then
                    out @ word16le (NO_EAS + NO_SUBSTREAMS + NO_REPARSETAG)
                        @ word8 (if isDirectory file then 1 else 0)
                        @ ZERO_GUID ext
                        @ word64le 0
                        @ word32le (if isDirectory file then DIRECTORY_ACCESS_ALL ext
                                    else FILE_ACCESS_ALL ext)
                        @ word32le (if isDirectory file then DIRECTORY_ACCESS_READONLY ext
                                    else FILE_ACCESS_READONLY ext)
                  else
                    out @ word16le 0
                        @ word8 (if isDirectory file then 1 else 0));
           params' = out;
           res = plain_result STATUS_SUCCESS (Buf params') EMPTY_BUFFER
       in Inr (if length params' > 2 * 0x2a then res\<lparr> res_wordCount := Some 0x2a \<rparr> else res)))))"

text \<open>
  The handler. The \<open>binary\<close> parser leaves a field \<open>null\<close> when the parameters end
  before it, and the log call applies \<open>toString\<close> to the parsed fields up to the last
  one (\<open>securityFlags\<close>, at offset 47): parameters shorter than 48 bytes are a TypeError
  there, as is a command id without a name. \<open>flags\<close> is the 32-bit field at offset 7,
  \<open>createDisposition\<close> the one at 35 and \<open>createOptions\<close> the one at 39.
\<close>

definition nt_create_andx_handle ::
  "externals \<Rightarrow> (nat \<Rightarrow> tree option) \<Rightarrow> message \<Rightarrow> nat \<Rightarrow> buffer \<Rightarrow> buffer \<Rightarrow> nat \<Rightarrow> nat
   \<Rightarrow> fault + (backend_call list \<times> result)" where
  "nt_create_andx_handle ext getTree msg cmdId commandParams commandData commandParamsOffset commandDataOffset =
    (if length commandParams < 48 then Inl TypeError
     else
    (case readUInt32LE commandParams 7 of Inl e \<Rightarrow> Inl e | Inr flags' \<Rightarrow>
    (case readUInt32LE commandParams 35 of Inl e \<Rightarrow> Inl e | Inr createDisposition \<Rightarrow>
    (case readUInt32LE commandParams 39 of Inl e \<Rightarrow> Inl e | Inr createOptions \<Rightarrow>
      (let off = calculatePadLength commandDataOffset 2;
           fileName = utf16le_string (extractUnicodeBytes commandData off)
       in
    (case upper_name (COMMAND_TO_STRING ext) cmdId of Inl e \<Rightarrow> Inl e | Inr u \<Rightarrow>
    (case getTree (tid (header msg)) of
       None \<Rightarrow> Inr ([], failure STATUS_SMB_BAD_TID)
     | Some tree \<Rightarrow>
        (let isDir = has_bits createOptions (FILE_DIRECTORY_FILE ext);
             calls = [OpenOrCreate fileName createDisposition isDir]
         in case openOrCreate tree fileName createDisposition isDir of
              Inl err \<Rightarrow> Inr (calls, failure (status_or (err_status err) STATUS_UNSUCCESSFUL))
            | Inr file \<Rightarrow>
                (case buildResult ext tree flags' commandParams file of
                   Inl e \<Rightarrow> Inl e
                 | Inr res \<Rightarrow> Inr (calls, res))))))))))"

subsection \<open>TRANS2 set file information (trans2_set_fs_information.js)\<close>

text \<open>The four information levels the \<open>switch\<close> knows; the results of the branches
  that store \<open>ntstatus.STATUS_SUCCESS\<close> in \<open>params\<close> are \<open>Num\<close> results. The two
  64-bit sizes are \<open>Long.fromBits(low, high, true).toNumber()\<close>, unsigned and rounded to
  a double.\<close>

definition set_file_information ::
  "externals \<Rightarrow> tree \<Rightarrow> smb_file \<Rightarrow> nat \<Rightarrow> buffer \<Rightarrow> nat \<Rightarrow> fault + (backend_call list \<times> result)" where
  "set_file_information ext tree file informationLevel commandData commandDataOffset =
    (if informationLevel = FILE_DISPOSITION_INFORMATION ext then
       (case readUInt8 commandData 0 of Inl e \<Rightarrow> Inl e | Inr deletePending \<Rightarrow>
          Inr (if deletePending \<noteq> 0 then [SetDeleteOnClose (fid file)] else [],
               plain_result STATUS_SUCCESS (Num STATUS_SUCCESS) EMPTY_BUFFER))
     else if informationLevel = FILE_END_OF_FILE_INFORMATION ext then
       (case readUInt32LE commandData 0 of Inl e \<Rightarrow> Inl e | Inr lo \<Rightarrow>
       (case readUInt32LE commandData 4 of Inl e \<Rightarrow> Inl e | Inr hi \<Rightarrow>
          (let endOfFile = nat (Long_toNumber lo hi True)
           in Inr ([SetLength (fid file) endOfFile],
                   (case setLength tree file endOfFile of
                      Some err \<Rightarrow> failure (status_or (err_status err) STATUS_UNSUCCESSFUL)
                    | None \<Rightarrow> plain_result STATUS_SUCCESS (Num STATUS_SUCCESS) EMPTY_BUFFER)))))
     else if informationLevel = FILE_ALLOCATION_INFORMATION ext then
       (case readUInt32LE commandData 0 of Inl e \<Rightarrow> Inl e | Inr lo \<Rightarrow>
       (case readUInt32LE commandData 4 of Inl e \<Rightarrow> Inl e | Inr hi \<Rightarrow>
          (let allocationSize' = nat (Long_toNumber lo hi True)
           in if allocationSize' = 0 \<and> fileSize file \<noteq> 0 then
                Inr ([SetLength (fid file) 0],
                     (case setLength tree file 0 of
                        Some err \<Rightarrow> failure (status_or (err_status err) STATUS_UNSUCCESSFUL)
                      | None \<Rightarrow> plain_result STATUS_SUCCESS (Num STATUS_SUCCESS) EMPTY_BUFFER))
              else Inr ([], plain_result STATUS_SUCCESS (Num STATUS_SUCCESS) EMPTY_BUFFER))))
     else if informationLevel = FILE_RENAME_INFORMATION ext then
       (case readUInt8 commandData 0 of Inl e \<Rightarrow> Inl e | Inr replaceIfExists \<Rightarrow>
       (case readUInt32LE commandData 4 of Inl e \<Rightarrow> Inl e | Inr rootDirectory \<Rightarrow>
       (case readUInt32LE commandData 8 of Inl e \<Rightarrow> Inl e | Inr fileNameLength \<Rightarrow>
          (let off = 12 + calculatePadLength (commandDataOffset + 12) 2;
               targetName = utf16le_string (extractUnicodeBytes commandData off);
               targetPath = targetPathOf ext (path file) targetName
           in Inr ([Rename (fid file) targetPath],
                   failure (case renameFile tree file targetPath of
                              Some err \<Rightarrow> status_or (err_status err) STATUS_UNSUCCESSFUL
                            | None \<Rightarrow> STATUS_SUCCESS))))))
     else Inr ([], failure STATUS_NOT_IMPLEMENTED))"

definition trans2_set_file_information_handle ::
  "externals \<Rightarrow> (nat \<Rightarrow> tree option) \<Rightarrow> message \<Rightarrow> nat \<Rightarrow> buffer \<Rightarrow> buffer \<Rightarrow> nat \<Rightarrow> nat
   \<Rightarrow> fault + (backend_call list \<times> result)" where
  "trans2_set_file_information_handle ext getTree msg cmdId commandParams commandData commandParamsOffset commandDataOffset =
    (case readUInt16LE commandParams 0 of Inl e \<Rightarrow> Inl e | Inr fid' \<Rightarrow>
    (case readUInt16LE commandParams 2 of Inl e \<Rightarrow> Inl e | Inr informationLevel \<Rightarrow>
    (case upper_name (TRANS2_SUBCOMMAND_TO_STRING ext) cmdId of Inl e \<Rightarrow> Inl e | Inr u \<Rightarrow>
      if informationLevel < INFO_PASSTHROUGH ext then Inr ([], failure STATUS_NOT_SUPPORTED)
      else
        (case getTree (tid (header msg)) of
           None \<Rightarrow> Inr ([], failure STATUS_SMB_BAD_TID)
         | Some tree \<Rightarrow>
            (case getFile tree fid' of
               None \<Rightarrow> Inr ([], failure STATUS_SMB_BAD_FID)
             | Some file \<Rightarrow>
                 set_file_information ext tree file informationLevel commandData commandDataOffset)))))"

text \<open>Sample values for closed instances: the tables know every id under the name
  \<open>cmd\<close>, and \<open>INFO_PASSTHROUGH\<close> is 1000 as in the SMB protocol.\<close>

definition sample_externals :: externals where
  "sample_externals =
     \<lparr> COMMAND_TO_STRING = (\<lambda>n. Some ''cmd''),
       TRANS2_SUBCOMMAND_TO_STRING = (\<lambda>n. Some ''cmd''),
       INFO_PASSTHROUGH = 1000,
       FILE_DISPOSITION_INFORMATION = 1013,
       FILE_END_OF_FILE_INFORMATION = 1020,
       FILE_ALLOCATION_INFORMATION = 1019,
       FILE_RENAME_INFORMATION = 1010,
       FILE_DIRECTORY_FILE = 1,
       DIRECTORY_ACCESS_ALL = 0x1f01ff,
       FILE_ACCESS_ALL = 0x1f01ff,
       DIRECTORY_ACCESS_READONLY = 0x1200a9,
       FILE_ACCESS_READONLY = 0x1200a9,
       ZERO_GUID = replicate 16 0,
       targetPathOf = (\<lambda>p n. p @ n) \<rparr>"

definition sample_file :: smb_file where
  "sample_file =
     \<lparr> fid = 7, path = [], isDirectory = False, fileSize = 3, createAction = 1,
       attributes = 0x80, allocationSize = 3, dataSize = 3, createdTime = 0,
       lastModifiedTime = 0, lastAccessedTime = 0, lastChangedTime = 0 \<rparr>"

definition sample_tree :: tree where
  "sample_tree =
     \<lparr> getFile = (\<lambda>n. if n = 7 then Some sample_file else None),
       isNamedPipe = False,
       closeFile = (\<lambda>n. None),
       openOrCreate = (\<lambda>n d isDir. Inr sample_file),
       listFiles = (\<lambda>p. Inr [sample_file]),
       renameFile = (\<lambda>f p. None),
       setLength = (\<lambda>f n. None),
       deleteFile = (\<lambda>f. None),
       readFile = (\<lambda>f n p. Inr (0, [])) \<rparr>"

text \<open>The parameters of an NT_CREATE_ANDX request (48 bytes) that asks for a batch oplock
  and the extended response (\<open>flags = 0x14\<close>), and two servers: one without trees and
  one where every TID resolves to \<open>sample_tree\<close>.\<close>

definition sample_create_params :: buffer where
  "sample_create_params = [0xff, 0, 0, 0, 0, 0, 0, 0x14, 0, 0, 0] @ replicate 37 0"

definition no_tree :: "nat \<Rightarrow> tree option" where
  "no_tree t = None"

definition one_tree :: "nat \<Rightarrow> tree option" where
  "one_tree t = Some sample_tree"

section \<open>The mutating operations of the sharelist backend (file.js, tree.js)\<close>

text \<open>
  Each of \<open>FSFile.write\<close>, \<open>FSFile.setLength\<close>, \<open>FSFile.delete\<close>, \<open>FSTree.createFile\<close>,
  \<open>FSTree.createDirectory\<close>, \<open>FSTree.delete\<close>, \<open>FSTree.deleteDirectory\<close> and
  \<open>FSTree.rename\<close> has the one-line body
  \<open>process.nextTick(function () { cb(new SMBError(ntstatus.STATUS_SMB_NO_SUPPORT)); })\<close>
  and touches nothing else. What the deferred function does depends on how the
  identifier \<open>ntstatus\<close> resolves in the module: the names below are the ones each module
  binds at its top level (its \<open>var\<close> and \<open>const\<close> declarations and its class), and Node
  has no global of that name. A name that is not bound is a ReferenceError, raised inside
  the deferred function before \<open>cb\<close> is called.
\<close>

definition file_js_bindings :: "string list" where
  "file_js_bindings =
     [''util'', ''fs'', ''Path'', ''logger'', ''perflog'', ''async'', ''File'', ''SMBError'',
      ''readFile'', ''closeFile'', ''FSFile'']"

definition tree_js_bindings :: "string list" where
  "tree_js_bindings =
     [''util'', ''Path'', ''fs'', ''logger'', ''perflog'', ''async'', ''Tree'', ''FSFile'',
      ''SMBError'', ''utils'', ''mkdirp'', ''FSTree'']"

text \<open>The outcome of the deferred function: the callback called with an error, or an
  exception that nothing catches.\<close>

datatype tick_outcome = Called smb_error | Uncaught fault

text \<open>\<open>new SMBError(status)\<close> (the constructor of part 2 of the unnamed sources) with the
  status found under a name in the \<open>ntstatus\<close> module, \<open>nt\<close>; the message is looked up
  from the status and is of no concern here.\<close>

definition new_SMBError :: "ntstatus option \<Rightarrow> smb_error" where
  "new_SMBError st = \<lparr> err_status = st, err_message = ''unknown error'' \<rparr>"

definition reject_mutation :: "string list \<Rightarrow> (string \<Rightarrow> ntstatus option) \<Rightarrow> tick_outcome" where
  "reject_mutation bindings nt =
     (if ''ntstatus'' \<in> set bindings
      then Called (new_SMBError (nt ''STATUS_SMB_NO_SUPPORT''))
      else Uncaught ReferenceError)"

definition FSFile_write :: "(string \<Rightarrow> ntstatus option) \<Rightarrow> buffer \<Rightarrow> nat \<Rightarrow> tick_outcome" where
  "FSFile_write nt data' position' = reject_mutation file_js_bindings nt"

definition FSFile_setLength :: "(string \<Rightarrow> ntstatus option) \<Rightarrow> nat \<Rightarrow> tick_outcome" where
  "FSFile_setLength nt length' = reject_mutation file_js_bindings nt"

definition FSFile_delete :: "(string \<Rightarrow> ntstatus option) \<Rightarrow> tick_outcome" where
  "FSFile_delete nt = reject_mutation file_js_bindings nt"

definition FSTree_createFile :: "(string \<Rightarrow> ntstatus option) \<Rightarrow> jsstring \<Rightarrow> tick_outcome" where
  "FSTree_createFile nt name = reject_mutation tree_js_bindings nt"

definition FSTree_createDirectory :: "(string \<Rightarrow> ntstatus option) \<Rightarrow> jsstring \<Rightarrow> tick_outcome" where
  "FSTree_createDirectory nt name = reject_mutation tree_js_bindings nt"

definition FSTree_delete :: "(string \<Rightarrow> ntstatus option) \<Rightarrow> jsstring \<Rightarrow> tick_outcome" where
  "FSTree_delete nt name = reject_mutation tree_js_bindings nt"

definition FSTree_deleteDirectory :: "(string \<Rightarrow> ntstatus option) \<Rightarrow> jsstring \<Rightarrow> tick_outcome" where
  "FSTree_deleteDirectory nt name = reject_mutation tree_js_bindings nt"

definition FSTree_rename :: "(string \<Rightarrow> ntstatus option) \<Rightarrow> jsstring \<Rightarrow> jsstring \<Rightarrow> tick_outcome" where
  "FSTree_rename nt oldName newName = reject_mutation tree_js_bindings nt"

text \<open>The status table of \<open>ntstatus.js\<close> for closed instances: every name the code uses
  is defined.\<close>

definition sample_ntstatus :: "string \<Rightarrow> ntstatus option" where
  "sample_ntstatus n =
     (if n = ''STATUS_SMB_NO_SUPPORT'' then Some STATUS_SMB_NO_SUPPORT
      else if n = ''STATUS_NOT_SUPPORTED'' then Some STATUS_NOT_SUPPORTED
      else None)"

section \<open>Properties of the NTLM primitives\<close>

subsection \<open>Stores of 32-bit results into bytes\<close>

lemma store8_push_bit: "store8 (push_bit k (ucast (a::byte)) AND mask 8) = push_bit k a"
  unfolding store8_def
  by (intro bit_word_eqI) (auto simp add: bit_simps)

lemma mask8_numeral: "(255::int32) = mask 8"
  by (simp add: mask_eq_exp_minus_1)

lemma store8_double: "store8 (ucast (a::byte) * 2 AND 255) = a * 2"
  using store8_push_bit[of 1 a] by (simp add: mask8_numeral)

lemma store8_and_254: "store8 (ucast (a::byte) AND 254) = a AND 254"
proof -
  have m: "(254::int32) = mask 8 AND NOT 1" "(254::byte) = NOT 1"
    by (simp_all add: mask_eq_exp_minus_1)
  show ?thesis
    unfolding store8_def m
    by (intro bit_word_eqI) (auto simp add: bit_simps)
qed

lemma store8_clear_parity: "store8 (ucast (a::byte) AND - 2) = a AND - 2"
proof -
  have m: "(- 2::int32) = NOT 1" "(- 2::byte) = NOT 1"
    by simp_all
  show ?thesis
    unfolding store8_def m
    by (intro bit_word_eqI) (auto simp add: bit_simps)
qed

lemma store8_set_parity: "store8 (ucast (a::byte) OR 1) = a OR 1"
  unfolding store8_def
  by (intro bit_word_eqI) (auto simp add: bit_simps)

lemma and_254_clear: "((a::byte) AND 254) AND - 2 = a AND 254"
proof -
  have m: "(254::byte) = NOT 1" "(- 2::byte) = NOT 1"
    by simp_all
  show ?thesis
    unfolding m by (intro bit_word_eqI) (auto simp add: bit_simps)
qed

lemma store8_mix:
  assumes "0 < k" and "k < 8"
  shows "store8 ((push_bit (8 - k) (ucast (a::byte)) AND 255) OR drop_bit k (ucast (b::byte)))
           = push_bit (8 - k) a OR drop_bit k b"
  unfolding store8_def mask8_numeral using assms
  by (intro bit_word_eqI) (auto simp add: bit_simps)

lemmas store8_mixes =
  store8_mix[of 1, simplified] store8_mix[of 2, simplified] store8_mix[of 3, simplified]
  store8_mix[of 4, simplified] store8_mix[of 5, simplified] store8_mix[of 6, simplified]

subsection \<open>expandKey\<close>

text \<open>
  Claim C5. For a 7-byte input \<open>expandKey\<close> returns 8 bytes: \<open>out[0]\<close> is
  \<open>in[0] & 0xfe\<close> (the parity bit, bit 0, cleared; clearing it a second time changes
  nothing, and bit 1 is kept); for \<open>1 \<le> i \<le> 6\<close>, \<open>out[i]\<close> is
  \<open>((in[i-1] << (8-i)) & 0xff) | (in[i] >> i)\<close> with bit 0 set when \<open>i\<close> is odd and
  cleared when \<open>i\<close> is even; \<open>out[7]\<close> is \<open>(in[6] << 1) & 0xff\<close> with bit 0 set.
  On bytes, \<open>push_bit k\<close> is the shift to the left that keeps the low eight bits.
\<close>

theorem expandKey_bit_pattern:
  assumes "length key56 = 7"
  shows "length (expandKey key56) = 8
    \<and> expandKey key56 ! 0 = key56 ! 0 AND 0xfe
    \<and> (\<forall>i\<in>{1..6}. expandKey key56 ! i =
          with_parity i (push_bit (8 - i) (key56 ! (i - 1)) OR drop_bit i (key56 ! i)))
    \<and> expandKey key56 ! 7 = push_bit 1 (key56 ! 6) OR 1"
proof -
  have six: "{1..6::nat} = {1, 2, 3, 4, 5, 6}"
    by auto
  show ?thesis
    using assms unfolding six
    by (simp add: expandKey_def load8_def PARITY_MASK_def with_parity_def Let_def
        store8_clear_parity store8_set_parity store8_mixes store8_and_254 store8_double
        and_254_clear)
qed

theorem expandKey_bit_pattern_witness:
  "length [0x02, 0x81, 0, 0, 0, 0, 0x80 :: byte] = 7
   \<and> expandKey [0x02, 0x81, 0, 0, 0, 0, 0x80] ! 0 = 0x02
   \<and> expandKey [0x02, 0x81, 0, 0, 0, 0, 0x80] ! 1 = 0x41
   \<and> expandKey [0x02, 0x81, 0, 0, 0, 0, 0x80] ! 2 = 0x40
   \<and> expandKey [0x02, 0x81, 0, 0, 0, 0, 0x80] ! 7 = 0x01"
  using expandKey_bit_pattern[of "[0x02, 0x81, 0, 0, 0, 0, 0x80]"]
  by (simp add: with_parity_def)

section \<open>Properties of the dispatcher\<close>

text \<open>
  Claim C1. A decoded message whose only command has an id without an entry in the
  command-id table: the dispatcher calls the continuation of that command once, with
  \<open>STATUS_SMB_BAD_COMMAND\<close>, and the response with that status goes out; but the
  branch does not return, and the dispatcher ends with an uncaught TypeError (raised by
  \<open>command.toUpperCase()\<close> in the branch for a missing handler) instead of stopping
  at the abort.
\<close>

theorem unknown_command_falls_through:
  assumes "tbl (commandId cmd) = None" and "hs ''undefined'' = None" and "commands msg = [cmd]"
  shows "handleRequest' tbl hs msg =
           (msg,
            [Continuation 0 (Some STATUS_SMB_BAD_COMMAND),
             SendRawMessage (sendResponse msg STATUS_SMB_BAD_COMMAND)],
            Some TypeError)"
  using assms by (simp add: handleRequest'_def final_callback_def)

theorem unknown_command_falls_through_witness:
  "sample_table (commandId (sample_command 0x60)) = None
   \<and> sample_handlers ''undefined'' = None
   \<and> commands (sample_message [sample_command 0x60]) = [sample_command 0x60]
   \<and> handleRequest' sample_table sample_handlers (sample_message [sample_command 0x60]) =
        (sample_message [sample_command 0x60],
         [Continuation 0 (Some STATUS_SMB_BAD_COMMAND),
          SendRawMessage (sendResponse (sample_message [sample_command 0x60]) STATUS_SMB_BAD_COMMAND)],
         Some TypeError)"
proof -
  have a: "sample_table (commandId (sample_command 0x60)) = None"
    by (simp add: sample_table_def sample_command_def)
  have b: "sample_handlers ''undefined'' = None"
    by (simp add: sample_handlers_def)
  have c: "commands (sample_message [sample_command 0x60]) = [sample_command 0x60]"
    by (simp add: sample_message_def)
  show ?thesis
    using a b c
      unknown_command_falls_through[where tbl = sample_table and hs = sample_handlers
        and cmd = "sample_command 0x60" and msg = "sample_message [sample_command 0x60]"]
    by simp
qed

section \<open>Properties of the sharelist backend\<close>

text \<open>
  Claim C6. None of the eight mutating operations delivers an error to its callback:
  \<open>ntstatus\<close> is not bound in \<open>file.js\<close> nor in \<open>tree.js\<close>, so the deferred function
  raises a ReferenceError and the callback is never called, whatever the status table
  holds.
\<close>

theorem mutations_raise_ReferenceError:
  "FSFile_write nt d p = Uncaught ReferenceError
   \<and> FSFile_setLength nt n = Uncaught ReferenceError
   \<and> FSFile_delete nt = Uncaught ReferenceError
   \<and> FSTree_createFile nt name1 = Uncaught ReferenceError
   \<and> FSTree_createDirectory nt name1 = Uncaught ReferenceError
   \<and> FSTree_delete nt name1 = Uncaught ReferenceError
   \<and> FSTree_deleteDirectory nt name1 = Uncaught ReferenceError
   \<and> FSTree_rename nt name1 name2 = Uncaught ReferenceError"
  by (simp add: FSFile_write_def FSFile_setLength_def FSFile_delete_def FSTree_createFile_def
      FSTree_createDirectory_def FSTree_delete_def FSTree_deleteDirectory_def FSTree_rename_def
      reject_mutation_def file_js_bindings_def tree_js_bindings_def)

section \<open>Properties of the Rectifier\<close>

subsection \<open>updateTask\<close>




lemma pause_or_resume_spec:
  assumes "req r \<noteq> None"
  shows "\<exists>r1. pause_or_resume r = Inr r1
     \<and> (int (position r) - int (farestChunk (tasks r)) > int (cacheSize r)
          \<longrightarrow> paused r1 \<and> (\<exists>q. req r1 = Some q \<and> \<not> flowing q))
     \<and> (5 * (int (position r) - int (farestChunk (tasks r))) < int (cacheSize r) \<and> paused r
          \<longrightarrow> \<not> paused r1 \<and> (\<exists>q. req r1 = Some q \<and> flowing q))
     \<and> loaded r1 = loaded r \<and> tasks r1 = tasks r \<and> position r1 = position r \<and> size_r r1 = size_r r"
  using assms
  by (cases "req r") (auto simp add: pause_or_resume_def Let_def)



subsection \<open>updateTask with continuations that close the file\<close>

text \<open>What \<open>cb(this)\<close> leaves of the Rectifier when the continuation may call
  \<open>close\<close>.\<close>

lemma invoke_calling_frame:
  assumes "invoke_calling react w r = (r', d)"
  shows "position r' = position r \<and> size_r r' = size_r r \<and> paused r' = paused r
         \<and> cacheSize r' = cacheSize r \<and> (req r' = None) = (req r = None)
         \<and> (closed r \<longrightarrow> closed r') \<and> delivered_cb d = rq_cb w
         \<and> loaded r' = (loaded r \<and> react (rq_cb w) = Returns)
         \<and> (react (rq_cb w) = CallsClose \<longrightarrow> closed r' \<and> tasks r' = [])"
  using assms
  by (auto simp add: invoke_calling_def read_def close_def Let_def
      split: prod.splits reaction.splits option.splits)

lemma run_tasks_calling_fire:
  assumes "p \<le> pos \<or> (p > sz \<and> loaded r)" and "invoke_calling react w r = (r1, d)"
  shows "run_tasks_calling react pos sz ((p, w) # ts) r undone out
           = run_tasks_calling react pos sz ts r1 undone (out @ [d])"
  using assms by auto

lemma run_tasks_calling_keep:
  assumes "\<not> (p \<le> pos \<or> (p > sz \<and> loaded r))"
  shows "run_tasks_calling react pos sz ((p, w) # ts) r undone out
           = run_tasks_calling react pos sz ts r (undone @ [(p, w)]) out"
  using assms by auto

text \<open>The loop with continuations that return at once is the loop of \<open>updateTask\<close>.\<close>

lemma run_tasks_calling_Returns:
  "run_tasks_calling (\<lambda>c. Returns) pos sz ts r undone out = run_tasks pos sz ts r undone out"
  by (induction ts arbitrary: r undone out)
     (auto simp add: invoke_calling_def invoke_def split: prod.splits)

lemma updateTask_calling_Returns: "updateTask_calling (\<lambda>c. Returns) r = updateTask r"
  by (simp add: updateTask_calling_def updateTask_def run_tasks_calling_Returns split: sum.splits)

text \<open>
  With \<open>this.loaded\<close> read when the loop reaches a task, the tasks that fire are invoked in
  order and leave the list, and exactly the others stay: task \<open>i\<close> fires when its target
  is at most the position, or beyond the size while \<open>loaded\<close> is still true behind the
  tasks before it.
\<close>

lemma fires_at_Cons:
  "fires_at react pos sz ld ((p, w) # before) q =
     fires_at react pos sz
       (ld \<and> ((p \<le> pos \<or> (p > sz \<and> ld)) \<longrightarrow> react (rq_cb w) = Returns)) before q"
  by (auto simp add: fires_at_def)

lemma fires_at_Nil:
  "fires_at react pos sz ld [] p = (p \<le> pos \<or> (p > sz \<and> ld))"
  by (simp add: fires_at_def)

lemma upt_0_Suc: "[0..<Suc n] = 0 # map Suc [0..<n]"
  by (simp add: upt_conv_Cons map_Suc_upt del: upt_Suc)

lemma kept_Cons:
  "map (\<lambda>i. ((p, w) # ts) ! i)
     (filter (\<lambda>i. \<not> fires_at react pos sz ld (take i ((p, w) # ts)) (fst (((p, w) # ts) ! i)))
        [0..<length ((p, w) # ts)])
   = (if p \<le> pos \<or> (p > sz \<and> ld) then [] else [(p, w)])
     @ map (\<lambda>i. ts ! i)
         (filter (\<lambda>i. \<not> fires_at react pos sz
                           (ld \<and> ((p \<le> pos \<or> (p > sz \<and> ld)) \<longrightarrow> react (rq_cb w) = Returns))
                           (take i ts) (fst (ts ! i)))
            [0..<length ts])"
  unfolding length_Cons upt_0_Suc
  by (cases "p \<le> pos"; cases "sz < p"; cases ld; cases "react (rq_cb w) = Returns";
      simp add: filter_map comp_def fires_at_Cons fires_at_Nil del: upt_Suc)

lemma fired_Cons:
  "map (\<lambda>i. rq_cb (snd (((p, w) # ts) ! i)))
     (filter (\<lambda>i. fires_at react pos sz ld (take i ((p, w) # ts)) (fst (((p, w) # ts) ! i)))
        [0..<length ((p, w) # ts)])
   = (if p \<le> pos \<or> (p > sz \<and> ld) then [rq_cb w] else [])
     @ map (\<lambda>i. rq_cb (snd (ts ! i)))
         (filter (\<lambda>i. fires_at react pos sz
                           (ld \<and> ((p \<le> pos \<or> (p > sz \<and> ld)) \<longrightarrow> react (rq_cb w) = Returns))
                           (take i ts) (fst (ts ! i)))
            [0..<length ts])"
  unfolding length_Cons upt_0_Suc
  by (cases "p \<le> pos"; cases "sz < p"; cases ld; cases "react (rq_cb w) = Returns";
      simp add: filter_map comp_def fires_at_Cons fires_at_Nil del: upt_Suc)

lemma run_tasks_calling_spec:
  assumes "run_tasks_calling react pos sz ts r undone out = (r', undone', out')"
  shows "undone' = undone @ map (\<lambda>i. ts ! i)
             (filter (\<lambda>i. \<not> fires_at react pos sz (loaded r) (take i ts) (fst (ts ! i)))
                [0..<length ts])
       \<and> map delivered_cb out' = map delivered_cb out @ map (\<lambda>i. rq_cb (snd (ts ! i)))
             (filter (\<lambda>i. fires_at react pos sz (loaded r) (take i ts) (fst (ts ! i)))
                [0..<length ts])"
  using assms
proof (induction ts arbitrary: r undone out)
  case Nil
  then show ?case by simp
next
  case (Cons t ts)
  obtain p w where t: "t = (p, w)" by (cases t)
  obtain r1 d where inv: "invoke_calling react w r = (r1, d)"
    by (cases "invoke_calling react w r")
  note fr = invoke_calling_frame[OF inv]
  show ?case
  proof (cases "p \<le> pos \<or> (p > sz \<and> loaded r)")
    case True
    then have "run_tasks_calling react pos sz ts r1 undone (out @ [d]) = (r', undone', out')"
      using Cons.prems t inv by (auto split: if_splits)
    note ih = Cons.IH[OF this]
    have l1: "(loaded r \<and> ((p \<le> pos \<or> (p > sz \<and> loaded r)) \<longrightarrow> react (rq_cb w) = Returns))
                = loaded r1"
      using fr True by auto
    have d1: "delivered_cb d = rq_cb w" using fr by simp
    show ?thesis
      unfolding t kept_Cons fired_Cons l1
      using ih True d1 by simp
  next
    case False
    then have "run_tasks_calling react pos sz ts r (undone @ [(p, w)]) out = (r', undone', out')"
      using Cons.prems t by (auto split: if_splits)
    note ih = Cons.IH[OF this]
    have l1: "(loaded r \<and> ((p \<le> pos \<or> (p > sz \<and> loaded r)) \<longrightarrow> react (rq_cb w) = Returns))
                = loaded r"
      using False by auto
    show ?thesis
      unfolding t kept_Cons fired_Cons l1
      using ih False by simp
  qed
qed

lemma updateTask_calling_at_check_time:
  assumes "req r \<noteq> None"
  shows "\<exists>r' ds. updateTask_calling react r = Inr (r', ds)
     \<and> tasks r' = map (\<lambda>i. tasks r ! i)
         (filter (\<lambda>i. \<not> fires_at react (position r) (size_r r) (loaded r)
                           (take i (tasks r)) (fst (tasks r ! i)))
            [0..<length (tasks r)])
     \<and> map delivered_cb ds = map (\<lambda>i. rq_cb (snd (tasks r ! i)))
         (filter (\<lambda>i. fires_at react (position r) (size_r r) (loaded r)
                           (take i (tasks r)) (fst (tasks r ! i)))
            [0..<length (tasks r)])"
proof -
  obtain r1 where r1: "pause_or_resume r = Inr r1" and fr: "loaded r1 = loaded r"
    using pause_or_resume_spec[OF assms] by blast
  obtain r2 undone out
    where rt: "run_tasks_calling react (position r) (size_r r) (tasks r) r1 [] [] = (r2, undone, out)"
    by (cases "run_tasks_calling react (position r) (size_r r) (tasks r) r1 [] []")
  have ut: "updateTask_calling react r = Inr (r2\<lparr>tasks := undone\<rparr>, out)"
    by (simp add: updateTask_calling_def r1 rt)
  show ?thesis
    using run_tasks_calling_spec[OF rt] ut by (simp add: fr)
qed

text \<open>When no task that fires has a continuation that closes the file, these are the
  filters by \<open>fires\<close>, as for continuations that return at once.\<close>

lemma fires_at_no_close:
  assumes "\<forall>t \<in> set ts. fires r (fst t) \<longrightarrow> react (rq_cb (snd t)) = Returns" and "i < length ts"
  shows "fires_at react (position r) (size_r r) (loaded r) (take i ts) p = fires r p"
  using assms by (auto simp add: fires_at_def fires_def dest: in_set_takeD)

lemma filter_by_index:
  "map (\<lambda>i. f (ts ! i)) (filter (\<lambda>i. P (ts ! i)) [0..<length ts]) = map f (filter P ts)"
proof -
  have "map f (filter P ts) = map f (filter P (map (\<lambda>i. ts ! i) [0..<length ts]))"
    by (simp add: map_nth)
  also have "\<dots> = map (\<lambda>i. f (ts ! i)) (filter (\<lambda>i. P (ts ! i)) [0..<length ts])"
    by (simp add: filter_map comp_def)
  finally show ?thesis by simp
qed

lemma updateTask_calling_no_close:
  assumes "req r \<noteq> None"
    and "\<forall>t \<in> set (tasks r). fires r (fst t) \<longrightarrow> react (rq_cb (snd t)) = Returns"
  shows "\<exists>r' ds. updateTask_calling react r = Inr (r', ds)
     \<and> tasks r' = filter (\<lambda>(p, cb). \<not> fires r p) (tasks r)
     \<and> map delivered_cb ds = map (\<lambda>(p, cb). rq_cb cb) (filter (\<lambda>(p, cb). fires r p) (tasks r))"
proof -
  let ?ts = "tasks r"
  have eq: "fires_at react (position r) (size_r r) (loaded r) (take i ?ts) (fst (?ts ! i))
              = fires r (fst (?ts ! i))" if "i \<in> set [0..<length ?ts]" for i
    using fires_at_no_close[OF assms(2), of i] that by simp
  have k: "filter (\<lambda>i. \<not> fires_at react (position r) (size_r r) (loaded r) (take i ?ts) (fst (?ts ! i)))
              [0..<length ?ts]
           = filter (\<lambda>i. \<not> fires r (fst (?ts ! i))) [0..<length ?ts]"
    by (rule filter_cong) (simp_all add: eq)
  have d: "filter (\<lambda>i. fires_at react (position r) (size_r r) (loaded r) (take i ?ts) (fst (?ts ! i)))
              [0..<length ?ts]
           = filter (\<lambda>i. fires r (fst (?ts ! i))) [0..<length ?ts]"
    by (rule filter_cong) (simp_all add: eq)
  have k': "map (\<lambda>i. ?ts ! i) (filter (\<lambda>i. \<not> fires r (fst (?ts ! i))) [0..<length ?ts])
              = filter (\<lambda>(p, cb). \<not> fires r p) ?ts"
    using filter_by_index[of "\<lambda>t. t" ?ts "\<lambda>t. \<not> fires r (fst t)"]
    by (simp add: case_prod_unfold)
  have d': "map (\<lambda>i. rq_cb (snd (?ts ! i))) (filter (\<lambda>i. fires r (fst (?ts ! i))) [0..<length ?ts])
              = map (\<lambda>(p, cb). rq_cb cb) (filter (\<lambda>(p, cb). fires r p) ?ts)"
    using filter_by_index[of "\<lambda>t. rq_cb (snd t)" ?ts "\<lambda>t. fires r (fst t)"]
    by (simp add: case_prod_unfold)
  from updateTask_calling_at_check_time[OF assms(1), of react]
  show ?thesis unfolding k d k' d' .
qed


subsection \<open>close\<close>

lemma run_tasks_calling_closed:
  assumes "run_tasks_calling react pos sz ts r undone out = (r', undone', out')" and "closed r"
  shows "closed r'"
  using assms
proof (induction ts arbitrary: r undone out)
  case Nil
  then show ?case by simp
next
  case (Cons t ts)
  obtain p cb where t: "t = (p, cb)" by (cases t)
  obtain r1 d where inv: "invoke_calling react cb r = (r1, d)"
    by (cases "invoke_calling react cb r")
  from invoke_calling_frame[OF inv] Cons.prems(2) have c1: "closed r1" by simp
  show ?case
  proof (cases "p \<le> pos \<or> (p > sz \<and> loaded r)")
    case True
    then have "run_tasks_calling react pos sz ts r1 undone (out @ [d]) = (r', undone', out')"
      using Cons.prems(1) t inv by (auto split: if_splits)
    from Cons.IH[OF this c1] show ?thesis .
  next
    case False
    then have "run_tasks_calling react pos sz ts r (undone @ [(p, cb)]) out = (r', undone', out')"
      using Cons.prems(1) t by (auto split: if_splits)
    from Cons.IH[OF this Cons.prems(2)] show ?thesis .
  qed
qed

lemma pause_or_resume_closed:
  assumes "pause_or_resume r = Inr r1"
  shows "closed r1 = closed r \<and> tasks r1 = tasks r"
  using assms
  by (auto simp add: pause_or_resume_def Let_def split: if_splits option.splits)

lemma updateTask_calling_closed:
  assumes "updateTask_calling react r = Inr (r', ds)" and "closed r"
  shows "closed r'"
proof -
  from assms(1) obtain r1 where r1: "pause_or_resume r = Inr r1"
    by (auto simp add: updateTask_calling_def split: sum.splits)
  obtain r2 undone out
    where rt: "run_tasks_calling react (position r) (size_r r) (tasks r) r1 [] [] = (r2, undone, out)"
    by (cases "run_tasks_calling react (position r) (size_r r) (tasks r) r1 [] []")
  from pause_or_resume_closed[OF r1] assms(2) have "closed r1" by simp
  from run_tasks_calling_closed[OF rt this] have "closed r2" .
  with assms(1) r1 rt show ?thesis by (auto simp add: updateTask_calling_def)
qed

lemma stays_closed_step:
  assumes "closed r" and "step react x r = Inr (r', ds)"
  shows "closed r'"
proof (cases x)
  case (When pos cb)
  with assms show ?thesis by (simp add: when_r_def)
next
  case (OnResponse code)
  with assms show ?thesis by (auto simp add: on_response_def split: if_splits)
next
  case (OnData chunk)
  show ?thesis
  proof (cases "req r = None")
    case True
    with assms OnData show ?thesis by simp
  next
    case False
    with assms OnData have "updateTask_calling react
           (r\<lparr> buffers := buffers r @ [chunk], length_r := length_r r + length chunk,
               position := position r + length chunk \<rparr>) = Inr (r', ds)"
      by (simp add: on_data_def Let_def)
    from updateTask_calling_closed[OF this] assms(1) show ?thesis by simp
  qed
next
  case OnEnd
  show ?thesis
  proof (cases "req r = None")
    case True
    with assms OnEnd show ?thesis by simp
  next
    case False
    with assms OnEnd have "updateTask_calling react (r\<lparr> loaded := True \<rparr>) = Inr (r', ds)"
      by (simp add: on_end_def)
    from updateTask_calling_closed[OF this] assms(1) show ?thesis by simp
  qed
next
  case Close
  with assms show ?thesis by (auto simp add: close_def Let_def split: option.splits)
next
  case Reset
  with assms show ?thesis by (auto simp add: reset_def)
qed

lemma stays_closed_exec:
  assumes "closed r" and "exec react ops r = (r', ds, e)"
  shows "closed r'"
  using assms
proof (induction ops arbitrary: r r' ds e)
  case Nil
  then show ?case by simp
next
  case (Cons x xs)
  show ?case
  proof (cases "step react x r")
    case (Inl f)
    with Cons.prems show ?thesis by simp
  next
    case (Inr p)
    obtain r1 ds1 where p: "p = (r1, ds1)" by (cases p)
    obtain r2 ds2 e2 where ex: "exec react xs r1 = (r2, ds2, e2)"
      by (cases "exec react xs r1") auto
    from stays_closed_step[OF Cons.prems(1)] Inr p have "closed r1" by auto
    from Cons.IH[OF this ex] have "closed r2" .
    with Cons.prems(2) Inr p ex show ?thesis by auto
  qed
qed

lemma closed_step:
  assumes "closed r" and "tasks r = []"
  shows "\<exists>r'. step react x r = Inr (r', []) \<and> closed r' \<and> tasks r' = []"
proof (cases x)
  case (When pos cb)
  with assms show ?thesis by (simp add: when_r_def)
next
  case (OnResponse code)
  with assms show ?thesis by (auto simp add: on_response_def split: if_splits)
next
  case (OnData chunk)
  with assms show ?thesis
    by (cases "req r")
       (auto simp add: on_data_def updateTask_calling_def pause_or_resume_def Let_def)
next
  case OnEnd
  with assms show ?thesis
    by (cases "req r")
       (auto simp add: on_end_def updateTask_calling_def pause_or_resume_def Let_def)
next
  case Close
  with assms show ?thesis by (auto simp add: close_def Let_def split: option.splits)
next
  case Reset
  with assms show ?thesis by (auto simp add: reset_def)
qed

lemma closed_exec:
  assumes "closed r" and "tasks r = []"
  shows "\<exists>r'. exec react ops r = (r', [], None) \<and> closed r' \<and> tasks r' = []"
  using assms
proof (induction ops arbitrary: r)
  case Nil
  then show ?case by simp
next
  case (Cons x xs)
  from closed_step[OF Cons.prems, of react x]
  obtain r1 where s1: "step react x r = Inr (r1, [])" "closed r1" "tasks r1 = []" by blast
  from Cons.IH[OF s1(2,3)]
  obtain r2 where s2: "exec react xs r1 = (r2, [], None)" "closed r2" "tasks r2 = []" by blast
  from s1 s2 show ?case by simp
qed

lemma close_closed: "closed (fst (close r)) \<and> tasks (fst (close r)) = []"
  by (auto simp add: close_def Let_def split: option.splits)

text \<open>
  Claim C10, as amended. \<open>closed\<close> is set by every \<open>close()\<close> and never reset: on a
  closed Rectifier \<open>when\<close> returns at once and leaves the Rectifier as it is (no task, no
  request), and the Rectifier is still closed after any run of calls and stream events,
  whatever the continuations of the waiters do. After a \<open>close()\<close> that is called while
  no \<open>updateTask\<close> is running (a step of its own, not a call from the continuation of a
  waiter), moreover, the task list is empty, and whatever calls and stream events follow,
  no waiter is invoked (the deliveries of the run are empty), no fault is raised and the
  task list stays empty. This covers the waiters registered before the close (the tasks
  of \<open>r\<close>) and the ones handed to \<open>when\<close> after it.
\<close>

theorem close_outside_updateTask_silences_rectifier:
  "closed (fst (close r)) \<and> tasks (fst (close r)) = []
   \<and> when_r react (fst (close r)) pos cb = Inr (fst (close r), [])
   \<and> fst (snd (exec react ops (fst (close r)))) = []
   \<and> snd (snd (exec react ops (fst (close r)))) = None
   \<and> closed (fst (exec react ops (fst (close r))))
   \<and> tasks (fst (exec react ops (fst (close r)))) = []
   \<and> (closed c \<longrightarrow> when_r react c pos cb = Inr (c, []) \<and> closed (fst (exec react ops c)))"
proof -
  from closed_exec[of "fst (close r)" react ops] close_closed[of r]
  obtain r' where ex: "exec react ops (fst (close r)) = (r', [], None)" "closed r'" "tasks r' = []"
    by blast
  have "closed (fst (exec react ops c))" if "closed c"
    using stays_closed_exec[OF that, of react ops] by (cases "exec react ops c") auto
  with ex close_closed[of r] show ?thesis
    by (simp add: when_r_def)
qed


theorem close_outside_updateTask_silences_rectifier_witness:
  "closed (fst (close sample_rectifier_tasks)) \<and> tasks (fst (close sample_rectifier_tasks)) = []
   \<and> when_r sample_reaction (fst (close sample_rectifier_tasks)) 2 (sample_waiter 3)
       = Inr (fst (close sample_rectifier_tasks), [])
   \<and> fst (snd (exec sample_reaction [When 2 (sample_waiter 3), OnData [5, 6], OnEnd]
                  (fst (close sample_rectifier_tasks)))) = []
   \<and> snd (snd (exec sample_reaction [When 2 (sample_waiter 3), OnData [5, 6], OnEnd]
                  (fst (close sample_rectifier_tasks)))) = None
   \<and> closed (fst (exec sample_reaction [When 2 (sample_waiter 3), OnData [5, 6], OnEnd]
                  (fst (close sample_rectifier_tasks))))
   \<and> tasks (fst (exec sample_reaction [When 2 (sample_waiter 3), OnData [5, 6], OnEnd]
                  (fst (close sample_rectifier_tasks)))) = []
   \<and> closed (sample_rectifier_tasks\<lparr> closed := True \<rparr>)
   \<and> when_r sample_reaction (sample_rectifier_tasks\<lparr> closed := True \<rparr>) 2 (sample_waiter 3)
       = Inr (sample_rectifier_tasks\<lparr> closed := True \<rparr>, [])
   \<and> closed (fst (exec sample_reaction [When 2 (sample_waiter 3), OnData [5, 6], OnEnd]
                  (sample_rectifier_tasks\<lparr> closed := True \<rparr>)))"
  using close_outside_updateTask_silences_rectifier
    [of sample_rectifier_tasks sample_reaction 2 "sample_waiter 3"
        "[When 2 (sample_waiter 3), OnData [5, 6], OnEnd]"
        "sample_rectifier_tasks\<lparr> closed := True \<rparr>"]
  by (simp del: exec.simps)

lemma sample_rectifier_three_fields:
  "tasks sample_rectifier_three = [(5, sample_waiter 1), (6, sample_waiter 2), (9, sample_waiter 3)]"
  "position sample_rectifier_three = 4" "size_r sample_rectifier_three = 4"
  "cacheSize sample_rectifier_three = 2097152" "\<not> paused sample_rectifier_three"
  "\<not> loaded sample_rectifier_three" "\<not> closed sample_rectifier_three"
  "req sample_rectifier_three \<noteq> None"
  by (simp_all add: sample_rectifier_three_def sample_rectifier_def new_Rectifier_def start_def)

text \<open>
  Claim C10 as it was stated does not hold for a \<open>close()\<close> that the continuation of a
  waiter calls. Three waiters for the positions 5, 6 and 9 wait on the sample Rectifier
  (position 4, size 4), and the continuation of the first one closes the file. The chunk
  \<open>[5, 6]\<close> arrives: \<open>updateTask\<close> invokes the first waiter, whose continuation calls
  \<open>close()\<close>; the loop goes on over the array it took at entry and invokes the second
  waiter, after the close; and \<open>this.tasks = undone\<close> puts the third task back, so the
  closed Rectifier has a task. With the next chunk, \<open>[7, 8, 9]\<close>, the third waiter is
  invoked as well.
\<close>

theorem close_inside_waiter_leaves_rectifier_live:
  "closed (fst (exec sample_reaction [OnData [5, 6]] sample_rectifier_three))
   \<and> tasks (fst (exec sample_reaction [OnData [5, 6]] sample_rectifier_three))
       = [(9, sample_waiter 3)]
   \<and> map delivered_cb (fst (snd (exec sample_reaction [OnData [5, 6]] sample_rectifier_three)))
       = [1, 2]
   \<and> map delivered_cb
       (fst (snd (exec sample_reaction [OnData [5, 6], OnData [7, 8, 9]] sample_rectifier_three)))
       = [1, 2, 3]"
proof -
  note f = sample_rectifier_three_fields
  let ?w = sample_waiter
  define rA where "rA = sample_rectifier_three\<lparr> buffers := buffers sample_rectifier_three @ [[5, 6]],
      length_r := length_r sample_rectifier_three + length [5 :: byte, 6],
      position := position sample_rectifier_three + length [5 :: byte, 6] \<rparr>"
  have fA: "tasks rA = [(5, ?w 1), (6, ?w 2), (9, ?w 3)]" "position rA = 6" "size_r rA = 4"
    "cacheSize rA = 2097152" "\<not> paused rA" "\<not> loaded rA" "req rA \<noteq> None"
    by (simp_all add: rA_def f)
  have pA: "pause_or_resume rA = Inr rA"
    by (simp add: pause_or_resume_def fA farestChunk_def)
  obtain r1 d1 where i1: "invoke_calling sample_reaction (?w 1) rA = (r1, d1)"
    by (cases "invoke_calling sample_reaction (?w 1) rA")
  obtain r2 d2 where i2: "invoke_calling sample_reaction (?w 2) r1 = (r2, d2)"
    by (cases "invoke_calling sample_reaction (?w 2) r1")
  have cb: "rq_cb (?w c) = c" for c by (simp add: sample_waiter_def)
  note fr1 = invoke_calling_frame[OF i1, unfolded cb]
  note fr2 = invoke_calling_frame[OF i2, unfolded cb]
  have s1: "closed r1" "\<not> loaded r1" "delivered_cb d1 = 1"
    using fr1 by (simp_all add: sample_reaction_def)
  have s2: "closed r2" "\<not> loaded r2" "delivered_cb d2 = 2" "position r2 = 6" "size_r r2 = 4"
    "cacheSize r2 = 2097152" "\<not> paused r2" "req r2 \<noteq> None"
    using fr1 fr2 s1 fA by (simp_all add: sample_reaction_def)
  have rt: "run_tasks_calling sample_reaction 6 4 [(5, ?w 1), (6, ?w 2), (9, ?w 3)] rA [] []
              = (r2, [(9, ?w 3)], [d1, d2])"
  proof -
    have "run_tasks_calling sample_reaction 6 4 [(5, ?w 1), (6, ?w 2), (9, ?w 3)] rA [] []
            = run_tasks_calling sample_reaction 6 4 [(6, ?w 2), (9, ?w 3)] r1 [] ([] @ [d1])"
      by (rule run_tasks_calling_fire[OF _ i1]) simp
    also have "\<dots> = run_tasks_calling sample_reaction 6 4 [(9, ?w 3)] r2 [] (([] @ [d1]) @ [d2])"
      by (rule run_tasks_calling_fire[OF _ i2]) simp
    also have "\<dots> = run_tasks_calling sample_reaction 6 4 [] r2 ([] @ [(9, ?w 3)]) (([] @ [d1]) @ [d2])"
      by (rule run_tasks_calling_keep) (simp add: s2)
    finally show ?thesis by simp
  qed
  define rB where "rB = r2\<lparr> tasks := [(9, ?w 3)] \<rparr>"
  have uA: "updateTask_calling sample_reaction rA = Inr (rB, [d1, d2])"
  proof -
    have "run_tasks_calling sample_reaction (position rA) (size_r rA) (tasks rA) rA [] []
            = (r2, [(9, ?w 3)], [d1, d2])"
      using rt by (simp only: fA)
    then show ?thesis by (simp add: updateTask_calling_def pA rB_def)
  qed
  have st1: "step sample_reaction (OnData [5, 6]) sample_rectifier_three = Inr (rB, [d1, d2])"
    using uA by (simp add: on_data_def Let_def f rA_def)
  define rC where "rC = rB\<lparr> buffers := buffers rB @ [[7, 8, 9]],
      length_r := length_r rB + length [7 :: byte, 8, 9],
      position := position rB + length [7 :: byte, 8, 9] \<rparr>"
  have fC: "tasks rC = [(9, ?w 3)]" "position rC = 9" "size_r rC = 4"
    "cacheSize rC = 2097152" "\<not> paused rC" "req rB \<noteq> None"
    by (simp_all add: rC_def rB_def s2)
  have pC: "pause_or_resume rC = Inr rC"
    by (simp add: pause_or_resume_def fC farestChunk_def)
  obtain r3 d3 where i3: "invoke_calling sample_reaction (?w 3) rC = (r3, d3)"
    by (cases "invoke_calling sample_reaction (?w 3) rC")
  note fr3 = invoke_calling_frame[OF i3, unfolded cb]
  have rt3: "run_tasks_calling sample_reaction 9 4 [(9, ?w 3)] rC [] [] = (r3, [], [d3])"
  proof -
    have "run_tasks_calling sample_reaction 9 4 [(9, ?w 3)] rC [] []
            = run_tasks_calling sample_reaction 9 4 [] r3 [] ([] @ [d3])"
      by (rule run_tasks_calling_fire[OF _ i3]) simp
    then show ?thesis by simp
  qed
  have st2: "step sample_reaction (OnData [7, 8, 9]) rB = Inr (r3\<lparr> tasks := [] \<rparr>, [d3])"
  proof -
    have "run_tasks_calling sample_reaction (position rC) (size_r rC) (tasks rC) rC [] []
            = (r3, [], [d3])"
      using rt3 by (simp only: fC)
    then have "updateTask_calling sample_reaction rC = Inr (r3\<lparr> tasks := [] \<rparr>, [d3])"
      by (simp add: updateTask_calling_def pC)
    then show ?thesis
      using fC(6) by (simp add: on_data_def Let_def rC_def)
  qed
  have e1: "exec sample_reaction [OnData [5, 6]] sample_rectifier_three = (rB, [d1, d2], None)"
    by (simp add: st1 del: step.simps)
  have e2: "exec sample_reaction [OnData [5, 6], OnData [7, 8, 9]] sample_rectifier_three
              = (r3\<lparr> tasks := [] \<rparr>, [d1, d2, d3], None)"
    by (simp add: st1 st2 del: step.simps)
  show ?thesis
    unfolding e1 e2 by (simp add: rB_def s1 s2 fr3)
qed


subsection \<open>read\<close>

text \<open>
  With the destination offset 0 the loop is right: for \<open>0 < len \<le> length\<close>, a queue
  that holds \<open>length\<close> bytes and a destination of at least \<open>len\<close> bytes, \<open>read\<close>
  delivers the first \<open>len\<close> bytes of the stream, leaves the rest of the stream in the
  queue and takes \<open>len\<close> off \<open>length\<close>.
\<close>

lemma copy_chunk_spec:
  assumes "index < len" and "len \<le> length buffer"
  shows "copy_chunk b buffer index len =
     (if len - index \<le> length b
      then (take index buffer @ take (len - index) b @ drop len buffer, len,
            Some (drop (len - index) b))
      else (take index buffer @ b @ drop (index + length b) buffer, index + length b, None))"
  using assms
proof (induction b arbitrary: buffer index)
  case Nil
  then show ?case by simp
next
  case (Cons x b)
  have il: "index < length buffer" using Cons.prems by simp
  have upd: "buffer[index := x] = take index buffer @ x # drop (Suc index) buffer"
    using il by (rule upd_conv_take_nth_drop)
  show ?case
  proof (cases "Suc index = len")
    case True
    then have "len - index = Suc 0" by simp
    with True show ?thesis
      using upd by simp
  next
    case False
    with Cons.prems have lt: "Suc index < len" by simp
    have lb: "len \<le> length (buffer[index := x])" using Cons.prems by simp
    have t: "take (Suc index) (buffer[index := x]) = take index buffer @ [x]"
      using il by (simp add: upd)
    have d: "drop k (buffer[index := x]) = drop k buffer" if "index < k" for k
      using that by simp
    have s: "len - index = Suc (len - Suc index)" using lt by simp
    show ?thesis
      using False Cons.IH[OF lt lb] lt
      by (simp add: t d s)
  qed
qed

lemma drain_spec:
  assumes "index < len" and "len \<le> length buffer" and "len - index \<le> length (concat bufs)"
  shows "\<exists>bufs'. drain bufs buffer index len
            = (bufs', take index buffer @ take (len - index) (concat bufs) @ drop len buffer, True)
          \<and> concat bufs' = drop (len - index) (concat bufs)"
  using assms
proof (induction bufs arbitrary: buffer index)
  case Nil
  then show ?case by simp
next
  case (Cons b bs)
  show ?case
  proof (cases "len - index \<le> length b")
    case True
    then show ?thesis
      using copy_chunk_spec[OF Cons.prems(1,2), of b] by simp
  next
    case False
    let ?buffer1 = "take index buffer @ b @ drop (index + length b) buffer"
    let ?index1 = "index + length b"
    from False have lt: "?index1 < len" by simp
    have li: "length (take index buffer) = index" using Cons.prems(1,2) by simp
    have l1: "length ?buffer1 = length buffer" using Cons.prems(1,2) lt by simp
    then have lb: "len \<le> length ?buffer1" using Cons.prems(2) by simp
    have rest: "len - ?index1 \<le> length (concat bs)" using Cons.prems(3) False by simp
    from Cons.IH[OF lt lb rest] obtain bufs' where
      dr: "drain bs ?buffer1 ?index1 len
             = (bufs', take ?index1 ?buffer1 @ take (len - ?index1) (concat bs) @ drop len ?buffer1, True)"
      and cc: "concat bufs' = drop (len - ?index1) (concat bs)"
      by blast
    have t1: "take ?index1 ?buffer1 = take index buffer @ b"
      using li by simp
    have d1: "drop len ?buffer1 = drop len buffer"
      using li lt by (simp add: add.commute)
    have tk: "take (len - index) (concat (b # bs)) = b @ take (len - ?index1) (concat bs)"
      using False by simp
    have dk: "drop (len - index) (concat (b # bs)) = drop (len - ?index1) (concat bs)"
      using False by simp
    have e: "drain (b # bs) buffer index len = drain bs ?buffer1 ?index1 len"
      using copy_chunk_spec[OF Cons.prems(1,2), of b] False by simp
    have "drain (b # bs) buffer index len
            = (bufs', take index buffer @ take (len - index) (concat (b # bs)) @ drop len buffer, True)"
      by (simp only: e dr t1 d1 tk append_assoc)
    moreover have "concat bufs' = drop (len - index) (concat (b # bs))"
      by (simp only: cc dk)
    ultimately show ?thesis by blast
  qed
qed

lemma read_from_offset_0:
  assumes "0 < len" and "len \<le> length_r r" and "length_r r = length (concat (buffers r))"
    and "len \<le> length buffer"
  shows "\<exists>r'. read r buffer 0 len pos = (r', len, take len (concat (buffers r)) @ drop len buffer)
          \<and> concat (buffers r') = drop len (concat (buffers r))
          \<and> length_r r' = length_r r - len
          \<and> length_r r' = length (concat (buffers r'))"
proof -
  have "len - 0 \<le> length (concat (buffers r))" using assms(2,3) by simp
  from drain_spec[OF assms(1) assms(4) this] obtain bufs' where
    dr: "drain (buffers r) buffer 0 len
           = (bufs', take len (concat (buffers r)) @ drop len buffer, True)"
    and cc: "concat bufs' = drop len (concat (buffers r))"
    by auto
  show ?thesis
    using assms(2,3) dr cc by (simp add: read_def Let_def)
qed

lemma sample_rectifier_queue:
  "buffers sample_rectifier = [[1, 2, 3, 4]]" "length_r sample_rectifier = 4"
  by (simp_all add: sample_rectifier_def)

lemma drain_offset_2:
  "drain [[1, 2, 3, 4]] [0, 0, 0, 0, 0, 0, 0, 0] 2 2 = ([], [0, 0, 1, 2, 3, 4, 0, 0], False)"
  by (simp add: eval_nat_numeral)

lemma drain_offset_1:
  "drain [[1, 2, 3, 4]] [0, 0, 0, 0, 0, 0, 0, 0] 1 3 = ([[3, 4]], [0, 1, 2, 0, 0, 0, 0, 0], True)"
  by (simp add: eval_nat_numeral)

lemma drain_length_0:
  "drain [[1, 2, 3, 4]] [0, 0, 0, 0, 0, 0, 0, 0] 0 0 = ([], [1, 2, 3, 4, 0, 0, 0, 0], False)"
  by (simp add: eval_nat_numeral)

text \<open>
  Claim C2, at a destination offset other than 0. The queue holds the one chunk
  \<open>[1, 2, 3, 4]\<close> and \<open>length\<close> is 4. \<open>read(buffer, 2, 2, 0, cb)\<close> should copy two
  bytes to \<open>buffer[2..4]\<close>, push \<open>[3, 4]\<close> back and leave \<open>length\<close> at 2; the loop
  compares the running index (which starts at the offset) with the length, never finds
  them equal, copies all four bytes, empties the queue and leaves \<open>length\<close> at 4, yet
  reports 2 bytes. \<open>read(buffer, 1, 3, 0, cb)\<close> stops after two bytes, reports 3 and takes
  3 off \<open>length\<close>. For the same reason \<open>read(buffer, 0, 0, 0, cb)\<close> empties the queue
  into the buffer and reports 0 bytes.
\<close>

theorem read_counts_from_destination_offset:
  "read sample_rectifier [0, 0, 0, 0, 0, 0, 0, 0] 2 2 0
     = (sample_rectifier\<lparr> buffers := [], length_r := 4 \<rparr>, 2, [0, 0, 1, 2, 3, 4, 0, 0])
   \<and> read sample_rectifier [0, 0, 0, 0, 0, 0, 0, 0] 1 3 0
     = (sample_rectifier\<lparr> buffers := [[3, 4]], length_r := 1 \<rparr>, 3, [0, 1, 2, 0, 0, 0, 0, 0])
   \<and> read sample_rectifier [0, 0, 0, 0, 0, 0, 0, 0] 0 0 0
     = (sample_rectifier\<lparr> buffers := [], length_r := 4 \<rparr>, 0, [1, 2, 3, 4, 0, 0, 0, 0])"
  by (simp add: read_def sample_rectifier_queue drain_offset_2 drain_offset_1 drain_length_0)

section \<open>Properties of the command handlers\<close>

lemma length_word_le [simp]: "length (word_le n v) = n"
  by (simp add: word_le_def)

lemma length_words [simp]:
  "length (word8 v) = 1" "length (word16le v) = 2" "length (word32le v) = 4" "length (word64le v) = 8"
  by (simp_all add: word8_def word16le_def word32le_def word64le_def)

lemma word8_nth: "word8 v ! 0 = of_nat (v mod 256)"
  by (simp add: word8_def word_le_def)

lemma status_or_not_success: "status_or s STATUS_UNSUCCESSFUL \<noteq> STATUS_SUCCESS"
  by (simp add: status_or_def split: option.splits)

lemma has_bits_OPBATCH:
  "has_bits x NT_CREATE_REQUEST_OPBATCH = bit x 2"
proof -
  have "((of_nat x :: int32) AND 2 ^ 2 = 0) = (\<not> bit (of_nat x :: int32) 2)"
    by (rule and_exp_eq_0_iff_not_bit)
  then show ?thesis
    by (simp add: has_bits_def NT_CREATE_REQUEST_OPBATCH_def bit_of_nat_iff)
qed

lemma buildResult_spec:
  assumes "buildResult ext tree flags' commandParams file = Inr res"
  shows "res_status res = STATUS_SUCCESS
       \<and> (\<exists>ps. res_params res = Buf ps
            \<and> ps ! 4 = (if bit flags' 2 then 2 else 0)
            \<and> res_wordCount res = (if length ps > 2 * 0x2a then Some 0x2a else None))"
  using assms
  by (auto simp add: buildResult_def Let_def plain_result_def nth_append word8_nth has_bits_OPBATCH
      split: sum.splits if_splits)

text \<open>
  Claim C8. In every successful NT_CREATE_ANDX result the OpLockLevel byte (the fifth
  byte of the response parameters) is 2 if the request flags (the 32-bit field at offset
  7 of the request parameters) have the batch-oplock bit 0x4 (bit 2) and 0 otherwise;
  and the \<open>wordCount\<close> override is 0x2a whenever \<open>params.length / 2 > 0x2a\<close> (and is
  absent otherwise).
\<close>

theorem nt_create_andx_oplock_and_wordCount:
  assumes "nt_create_andx_handle ext getTree msg cmdId commandParams commandData pOff dOff = Inr (calls, res)"
    and "res_status res = STATUS_SUCCESS"
  shows "\<exists>ps flags'. res_params res = Buf ps \<and> readUInt32LE commandParams 7 = Inr flags'
           \<and> ps ! 4 = (if bit flags' 2 then 2 else 0)
           \<and> (length ps > 2 * 0x2a \<longrightarrow> res_wordCount res = Some 0x2a)
           \<and> (length ps \<le> 2 * 0x2a \<longrightarrow> res_wordCount res = None)"
proof -
  from assms obtain flags' tree f where
    fl: "readUInt32LE commandParams 7 = Inr flags'" and
    br: "buildResult ext tree flags' commandParams f = Inr res"
    by (auto simp add: nt_create_andx_handle_def Let_def failure_def plain_result_def
        status_or_not_success
        split: if_splits sum.splits option.splits)
  from buildResult_spec[OF br] fl show ?thesis
    by auto
qed

text \<open>
  Claim C7, amended. When the TID of the header does not resolve to a tree, each of the
  handlers CLOSE, READ_ANDX, DELETE and NT_CREATE_ANDX answers \<open>STATUS_SMB_BAD_TID\<close>
  with empty params and data, for every request it decodes without a fault (parameters
  and data long enough for its fixed reads, a command id with a name). TRANS2 set file
  information answers \<open>STATUS_SMB_BAD_TID\<close> only for an information level of at least
  \<open>INFO_PASSTHROUGH\<close>; for a lower level it answers \<open>STATUS_NOT_SUPPORTED\<close>, since it
  checks the level before the TID.
\<close>

theorem bad_tid_responses:
  assumes "getTree (tid (header msg)) = None"
  shows "(6 \<le> length commandParams \<and> COMMAND_TO_STRING ext cmdId \<noteq> None \<longrightarrow>
            close_handle ext getTree msg cmdId commandParams commandData pOff dOff
              = Inr ([], failure STATUS_SMB_BAD_TID))
       \<and> (COMMAND_TO_STRING ext cmdId \<noteq> None \<longrightarrow>
            read_andx_handle ext getTree msg cmdId commandParams commandData pOff dOff
              = Inr ([], failure STATUS_SMB_BAD_TID))
       \<and> (2 \<le> length commandParams \<and> 1 \<le> length commandData \<and> COMMAND_TO_STRING ext cmdId \<noteq> None \<longrightarrow>
            delete_handle ext getTree msg cmdId commandParams commandData pOff dOff
              = Inr ([], failure STATUS_SMB_BAD_TID))
       \<and> (48 \<le> length commandParams \<and> COMMAND_TO_STRING ext cmdId \<noteq> None \<longrightarrow>
            nt_create_andx_handle ext getTree msg cmdId commandParams commandData pOff dOff
              = Inr ([], failure STATUS_SMB_BAD_TID))
       \<and> (\<forall>level. readUInt16LE commandParams 2 = Inr level
                   \<and> TRANS2_SUBCOMMAND_TO_STRING ext cmdId \<noteq> None \<longrightarrow>
            trans2_set_file_information_handle ext getTree msg cmdId commandParams commandData pOff dOff
              = Inr ([], failure (if level < INFO_PASSTHROUGH ext then STATUS_NOT_SUPPORTED
                                  else STATUS_SMB_BAD_TID)))
       \<and> res_params (failure STATUS_SMB_BAD_TID) = Buf [] \<and> res_data (failure STATUS_SMB_BAD_TID) = []"
proof -
  have c: "6 \<le> length commandParams \<and> COMMAND_TO_STRING ext cmdId \<noteq> None \<longrightarrow>
            close_handle ext getTree msg cmdId commandParams commandData pOff dOff
              = Inr ([], failure STATUS_SMB_BAD_TID)"
    using assms
    by (auto simp add: close_handle_def readUInt16LE_def readUInt32LE_def upper_name_def)
  have r: "COMMAND_TO_STRING ext cmdId \<noteq> None \<longrightarrow>
            read_andx_handle ext getTree msg cmdId commandParams commandData pOff dOff
              = Inr ([], failure STATUS_SMB_BAD_TID)"
    using assms
    by (auto simp add: read_andx_handle_def readUInt32LE_def upper_name_def Let_def)
  have d: "2 \<le> length commandParams \<and> 1 \<le> length commandData \<and> COMMAND_TO_STRING ext cmdId \<noteq> None \<longrightarrow>
            delete_handle ext getTree msg cmdId commandParams commandData pOff dOff
              = Inr ([], failure STATUS_SMB_BAD_TID)"
    using assms
    by (auto simp add: delete_handle_def readUInt16LE_def readUInt8_def upper_name_def Let_def)
  have n: "48 \<le> length commandParams \<and> COMMAND_TO_STRING ext cmdId \<noteq> None \<longrightarrow>
            nt_create_andx_handle ext getTree msg cmdId commandParams commandData pOff dOff
              = Inr ([], failure STATUS_SMB_BAD_TID)"
    using assms
    by (auto simp add: nt_create_andx_handle_def readUInt32LE_def upper_name_def Let_def)
  have t: "\<forall>level. readUInt16LE commandParams 2 = Inr level
                   \<and> TRANS2_SUBCOMMAND_TO_STRING ext cmdId \<noteq> None \<longrightarrow>
            trans2_set_file_information_handle ext getTree msg cmdId commandParams commandData pOff dOff
              = Inr ([], failure (if level < INFO_PASSTHROUGH ext then STATUS_NOT_SUPPORTED
                                  else STATUS_SMB_BAD_TID))"
    using assms
    by (auto simp add: trans2_set_file_information_handle_def readUInt16LE_def upper_name_def
        split: if_splits)
  have e: "res_params (failure STATUS_SMB_BAD_TID) = Buf [] \<and> res_data (failure STATUS_SMB_BAD_TID) = []"
    by (simp add: failure_def plain_result_def EMPTY_BUFFER_def)
  from c r d n t e show ?thesis by blast
qed

lemma buildResult_total:
  assumes "4 \<le> length commandParams"
  shows "\<exists>res. buildResult ext tree flags' commandParams f = Inr res"
  using assms
  by (simp add: buildResult_def Let_def readUInt8_def readUInt16LE_def)

lemma buildResult_length:
  assumes "buildResult ext tree flags' commandParams f = Inr res"
  shows "\<exists>ps. res_params res = Buf ps
           \<and> length ps = (if has_bits flags' NT_CREATE_REQUEST_EXTENDED_RESPONSE
                           then 84 + length (ZERO_GUID ext) else 68)"
  using assms
  by (auto simp add: buildResult_def Let_def plain_result_def
      split: sum.splits if_splits)

lemma sample_create_reads:
  "length sample_create_params = 48"
  "readUInt32LE sample_create_params 7 = Inr 20"
  "readUInt32LE sample_create_params 35 = Inr 0"
  "readUInt32LE sample_create_params 39 = Inr 0"
  by (simp_all add: sample_create_params_def readUInt32LE_def nth_append)

lemma ext_20: "has_bits 20 NT_CREATE_REQUEST_EXTENDED_RESPONSE" "bit (20::nat) 2"
  by (simp_all add: has_bits_def NT_CREATE_REQUEST_EXTENDED_RESPONSE_def bit_iff_odd)

theorem nt_create_andx_oplock_and_wordCount_witness:
  "\<exists>calls res. nt_create_andx_handle sample_externals one_tree (sample_message []) 0xa2
                   sample_create_params [] 81 83 = Inr (calls, res)
      \<and> res_status res = STATUS_SUCCESS
      \<and> (\<exists>ps. res_params res = Buf ps \<and> ps ! 4 = 2 \<and> length ps = 100
                \<and> res_wordCount res = Some 0x2a)"
proof -
  obtain res where br: "buildResult sample_externals sample_tree 20 sample_create_params sample_file = Inr res"
    using buildResult_total[where commandParams = sample_create_params and ext = sample_externals
        and tree = sample_tree and flags' = 20 and f = sample_file] sample_create_reads(1)
    by auto
  have h: "nt_create_andx_handle sample_externals one_tree (sample_message []) 0xa2
                   sample_create_params [] 81 83
             = Inr ([OpenOrCreate [] 0 False], res)"
  proof -
    have p: "COMMAND_TO_STRING sample_externals 0xa2 = Some ''cmd''"
      "FILE_DIRECTORY_FILE sample_externals = 1"
      "openOrCreate sample_tree [] 0 False = Inr sample_file"
      by (simp_all add: sample_externals_def sample_tree_def)
    show ?thesis
      by (simp add: nt_create_andx_handle_def sample_create_reads upper_name_def Let_def
          one_tree_def has_bits_def br p extractUnicodeBytes_def)
  qed
  have s: "res_status res = STATUS_SUCCESS"
    using buildResult_spec[OF br] by simp
  from buildResult_length[OF br]
  have l: "\<exists>ps. res_params res = Buf ps \<and> length ps = 100"
    by (simp add: ext_20 sample_externals_def)
  from nt_create_andx_oplock_and_wordCount[OF h s] l
  show ?thesis
    using h s by (auto simp add: sample_create_reads ext_20)
qed

theorem bad_tid_responses_witness:
  "no_tree (tid (header (sample_message []))) = None
   \<and> close_handle sample_externals no_tree (sample_message []) 0x04 [7, 0, 0, 0, 0, 0] [] 33 47
       = Inr ([], failure STATUS_SMB_BAD_TID)
   \<and> read_andx_handle sample_externals no_tree (sample_message []) 0x2e (replicate 24 0) [] 33 59
       = Inr ([], failure STATUS_SMB_BAD_TID)
   \<and> delete_handle sample_externals no_tree (sample_message []) 0x06 [0, 0] [4, 0, 0] 33 37
       = Inr ([], failure STATUS_SMB_BAD_TID)
   \<and> nt_create_andx_handle sample_externals no_tree (sample_message []) 0xa2 sample_create_params [] 33 83
       = Inr ([], failure STATUS_SMB_BAD_TID)
   \<and> trans2_set_file_information_handle sample_externals no_tree (sample_message []) 0x08
        [7, 0, 0xf5, 0x03] [] 33 47
       = Inr ([], failure STATUS_SMB_BAD_TID)
   \<and> trans2_set_file_information_handle sample_externals no_tree (sample_message []) 0x08
        [7, 0, 0x01, 0x01] [] 33 47
       = Inr ([], failure STATUS_NOT_SUPPORTED)"
proof -
  have a: "no_tree (tid (header (sample_message []))) = None"
    by (simp add: no_tree_def)
  have n: "COMMAND_TO_STRING sample_externals c \<noteq> None"
     "TRANS2_SUBCOMMAND_TO_STRING sample_externals c \<noteq> None" 
     "INFO_PASSTHROUGH sample_externals = 1000" for c
    by (simp_all add: sample_externals_def)
  have l: "readUInt16LE [7, 0, 0xf5, 0x03] 2 = Inr 1013" "readUInt16LE [7, 0, 0x01, 0x01] 2 = Inr 257"
    by (simp_all add: readUInt16LE_def)
  note b = bad_tid_responses[where getTree = no_tree and msg = "sample_message []"
      and ext = sample_externals, OF a]
  have 1: "close_handle sample_externals no_tree (sample_message []) 0x04 [7, 0, 0, 0, 0, 0] [] 33 47
       = Inr ([], failure STATUS_SMB_BAD_TID)"
    using b[where commandParams = "[7, 0, 0, 0, 0, 0]" and cmdId = "0x04"] n by simp
  have 2: "read_andx_handle sample_externals no_tree (sample_message []) 0x2e (replicate 24 0) [] 33 59
       = Inr ([], failure STATUS_SMB_BAD_TID)"
    using b[where cmdId = "0x2e"] n by simp
  have 3: "delete_handle sample_externals no_tree (sample_message []) 0x06 [0, 0] [4, 0, 0] 33 37
       = Inr ([], failure STATUS_SMB_BAD_TID)"
    using b[where commandParams = "[0, 0]" and commandData = "[4, 0, 0]" and cmdId = "0x06"] n by simp
  have 4: "nt_create_andx_handle sample_externals no_tree (sample_message []) 0xa2 sample_create_params [] 33 83
       = Inr ([], failure STATUS_SMB_BAD_TID)"
    using b[where commandParams = sample_create_params and cmdId = "0xa2"] n sample_create_reads(1) by simp
  have 5: "trans2_set_file_information_handle sample_externals no_tree (sample_message []) 0x08
        [7, 0, 0xf5, 0x03] [] 33 47
       = Inr ([], failure STATUS_SMB_BAD_TID)"
    using b[where commandParams = "[7, 0, 0xf5, 0x03]" and cmdId = "0x08"] n l by simp
  have 6: "trans2_set_file_information_handle sample_externals no_tree (sample_message []) 0x08
        [7, 0, 0x01, 0x01] [] 33 47
       = Inr ([], failure STATUS_NOT_SUPPORTED)"
    using b[where commandParams = "[7, 0, 0x01, 0x01]" and cmdId = "0x08"] n l by simp
  from a 1 2 3 4 5 6 show ?thesis by blast
qed

text \<open>Claim C7 as stated fails for TRANS2 set file information with the information
  level 0x0101 and a TID that does not resolve: the answer is \<open>STATUS_NOT_SUPPORTED\<close>.\<close>

theorem set_file_information_checks_level_before_tid:
  "no_tree (tid (header (sample_message []))) = None
   \<and> trans2_set_file_information_handle sample_externals no_tree (sample_message []) 0x08
        [7, 0, 0x01, 0x01] [] 33 47
       = Inr ([], failure STATUS_NOT_SUPPORTED)
   \<and> trans2_set_file_information_handle sample_externals no_tree (sample_message []) 0x08
        [7, 0, 0x01, 0x01] [] 33 47
       \<noteq> Inr ([], failure STATUS_SMB_BAD_TID)"
  by (simp add: no_tree_def trans2_set_file_information_handle_def readUInt16LE_def upper_name_def
      sample_externals_def failure_def plain_result_def)

section \<open>Properties of the NTLMv2 blob parser and of the response validation\<close>

subsection \<open>The parser on terminated and unterminated lists\<close>

lemma unat_byte_of_nat: "unat (of_nat (n mod 256) :: byte) = n mod 256"
  by (simp add: unat_of_nat)

lemma readUInt16LE_u16le:
  assumes "drop p blob = u16le n @ rest" and "n < 65536"
  shows "readUInt16LE blob p = Inr n"
proof -
  let ?a = "of_nat (n mod 256) :: byte" and ?b = "of_nat (n div 256 mod 256) :: byte"
  from assms(1) have d: "drop p blob = ?a # ?b # rest"
    by (simp add: u16le_def)
  then have "length (drop p blob) \<ge> 2" by simp
  then have len: "p + 2 \<le> length blob" by simp
  have a: "blob ! p = ?a"
    using d by (rule nth_via_drop)
  have "drop p blob ! 1 = blob ! (p + 1)"
    using len by (simp add: nth_drop)
  with d have b: "blob ! (p + 1) = ?b" by simp
  have hi: "n div 256 < 256" using assms(2) by simp
  have ua: "unat (blob ! p) = n mod 256"
    unfolding a by (simp add: unat_of_nat)
  have ub: "unat (blob ! Suc p) = n div 256"
    using b hi by (simp add: unat_of_nat)
  have "n mod 256 + 256 * (n div 256) = n" by simp
  then show ?thesis
    using len by (simp add: readUInt16LE_def ua ub)
qed

lemma entries_head:
  assumes "list_all valid_entry es"
  shows "first_type es < 65536 \<and>
         (\<exists>tl. concat (map encode_entry es) @ u16le EOL @ rest = u16le (first_type es) @ tl)"
  using assms
  by (cases es) (auto simp add: first_type_def EOL_def valid_entry_def encode_entry_def)

lemma info_loop_entries:
  assumes "list_all valid_entry es"
    and "drop p blob = concat (map encode_entry es) @ u16le EOL @ rest"
  shows "\<exists>infos'. info_loop blob (p + 2) (first_type es) infos
            = Inr (p + length (concat (map encode_entry es)) + 2, infos')"
  using assms
proof (induction es arbitrary: p infos)
  case Nil
  show ?case
    by (subst info_loop.simps) (simp add: first_type_def)
next
  case (Cons e es)
  obtain t v where e: "e = (t, v)" by (cases e)
  from Cons.prems(1) have es: "list_all valid_entry es" and ve: "valid_entry e"
    by simp_all
  from ve e have v: "0 < t" "t < 65536" "length v < 65536"
    by (simp_all add: valid_entry_def)
  let ?tail = "concat (map encode_entry es) @ u16le EOL @ rest"
  have ee: "encode_entry (t, v) = u16le t @ u16le (length v) @ v"
    by (simp add: encode_entry_def)
  from Cons.prems(2) e have d0: "drop p blob = u16le t @ u16le (length v) @ v @ ?tail"
    by (simp add: ee)
  have l2: "length (u16le x) = 2" for x by (simp add: u16le_def)
  have d2: "drop (p + 2) blob = u16le (length v) @ v @ ?tail"
  proof -
    have "drop (p + 2) blob = drop 2 (drop p blob)" by (simp add: add.commute)
    also have "\<dots> = u16le (length v) @ v @ ?tail" unfolding d0 by (simp add: l2)
    finally show ?thesis .
  qed
  have d4: "drop (p + 2 + 2 + length v) blob = ?tail"
  proof -
    have "drop (p + 2 + 2 + length v) blob = drop (2 + length v) (drop (p + 2) blob)"
      by (simp add: add.commute add.left_commute)
    also have "\<dots> = ?tail" unfolding d2 by (simp add: l2)
    finally show ?thesis .
  qed
  have r1: "readUInt16LE blob (p + 2) = Inr (length v)"
    using d2 v(3) by (rule readUInt16LE_u16le)
  from entries_head[OF es, of rest] obtain tl where
    ft: "first_type es < 65536" and tl: "?tail = u16le (first_type es) @ tl"
    by blast
  have r2: "readUInt16LE blob (p + 2 + 2 + length v) = Inr (first_type es)"
    using d4[unfolded tl] ft by (rule readUInt16LE_u16le)
  from Cons.IH[OF es d4, of "AList.update t (slice blob (p + 2 + 2) (p + 2 + 2 + length v)) infos"]
  obtain infos' where ih: "info_loop blob (p + 2 + 2 + length v + 2) (first_type es)
          (AList.update t (slice blob (p + 2 + 2) (p + 2 + 2 + length v)) infos)
        = Inr (p + 2 + 2 + length v + length (concat (map encode_entry es)) + 2, infos')"
    by blast
  have ft': "first_type (e # es) = t" by (simp add: first_type_def e)
  have ll: "length (concat (map encode_entry (e # es))) = 2 + 2 + length v + length (concat (map encode_entry es))"
    by (simp add: e ee l2)
  show ?case
    unfolding ft' ll
    apply (subst info_loop.simps)
    using v(1) r1 r2 ih
    apply (simp add: EOL_def add.assoc)
    done
qed

lemma parse_eol_terminated:
  assumes "MIN_BLOB_SIZE \<le> length blob" and "eol_terminated blob"
  shows "\<exists>obj. parseNTLMv2Blob blob = Inr (Some obj) \<and> signature obj = take 4 blob"
proof -
  from assms(2) obtain es rest where es: "list_all valid_entry es"
    and d: "drop 28 blob = concat (map encode_entry es) @ u16le EOL @ rest"
    by (auto simp add: eol_terminated_def)
  from entries_head[OF es, of rest] obtain tl where
    ft: "first_type es < 65536" and tl: "drop 28 blob = u16le (first_type es) @ tl"
    unfolding d by blast
  have r: "readUInt16LE blob 28 = Inr (first_type es)"
    using tl ft by (rule readUInt16LE_u16le)
  from info_loop_entries[OF es d, of "[]"] obtain infos' where
    il: "info_loop blob 30 (first_type es) [] = Inr (28 + length (concat (map encode_entry es)) + 2, infos')"
    by auto
  show ?thesis
    using assms(1) r il
    by (simp add: parseNTLMv2Blob_def MIN_BLOB_SIZE_def readUInt32LE_def Let_def slice_def)
qed

lemma unterminated_blob_faults:
  "MIN_BLOB_SIZE \<le> length unterminated_blob \<and> parseNTLMv2Blob unterminated_blob = Inl RangeError"
proof -
  have l: "length unterminated_blob = 36" by (simp add: unterminated_blob_def)
  have r: "readUInt16LE unterminated_blob 28 = Inr 65535" "readUInt16LE unterminated_blob 30 = Inr 65535"
    by (simp_all add: readUInt16LE_def unterminated_blob_def nth_append)
  have o: "readUInt16LE unterminated_blob 65567 = Inl RangeError"
    by (simp add: readUInt16LE_def l)
  have il: "info_loop unterminated_blob 30 65535 [] = Inl RangeError"
    by (subst info_loop.simps) (simp add: r o EOL_def)
  show ?thesis
    by (simp add: parseNTLMv2Blob_def MIN_BLOB_SIZE_def l readUInt32LE_def r il)
qed

lemma terminated_blob_ok:
  "MIN_BLOB_SIZE \<le> length terminated_blob \<and> eol_terminated terminated_blob
    \<and> take 4 terminated_blob = BLOB_SIGNATURE"
proof -
  have "list_all valid_entry [(2, [0x41, 0])]
        \<and> drop 28 terminated_blob = concat (map encode_entry [(2, [0x41, 0])]) @ u16le EOL @ [0, 0, 0xff, 0xff, 0xff, 0xff]"
    by (simp add: valid_entry_def terminated_blob_def encode_entry_def u16le_def EOL_def)
  then have "eol_terminated terminated_blob"
    unfolding eol_terminated_def by blast
  then show ?thesis
    by (simp add: MIN_BLOB_SIZE_def terminated_blob_def BLOB_SIGNATURE_def)
qed

text \<open>
  Claim C9. \<open>parseNTLMv2Blob\<close> is total only for blobs whose attribute list is
  terminated inside the blob: there is a blob of at least 36 bytes without an in-bounds
  terminator on which the parser raises a RangeError (a read past the end of the buffer),
  and on every blob of at least 36 bytes whose list is terminated in bounds the parser
  returns an object.
\<close>

theorem parseNTLMv2Blob_total_iff_terminated:
  "(\<exists>blob. MIN_BLOB_SIZE \<le> length blob \<and> \<not> eol_terminated blob
           \<and> parseNTLMv2Blob blob = Inl RangeError)
   \<and> (\<forall>blob. MIN_BLOB_SIZE \<le> length blob \<and> eol_terminated blob
          \<longrightarrow> (\<exists>obj. parseNTLMv2Blob blob = Inr (Some obj)))"
proof -
  have "\<not> eol_terminated unterminated_blob"
  proof
    assume "eol_terminated unterminated_blob"
    with unterminated_blob_faults parse_eol_terminated[of unterminated_blob]
    show False by auto
  qed
  with unterminated_blob_faults parse_eol_terminated show ?thesis by blast
qed

theorem parseNTLMv2Blob_total_iff_terminated_witness:
  "MIN_BLOB_SIZE \<le> length terminated_blob \<and> eol_terminated terminated_blob
   \<and> (\<exists>obj. parseNTLMv2Blob terminated_blob = Inr (Some obj))"
  using parseNTLMv2Blob_total_iff_terminated terminated_blob_ok by blast

subsection \<open>Validation of a computed response and of its bit flips\<close>

lemma length_flip [simp]: "length (flip_bit_at i b) = length b"
  by (simp add: flip_bit_at_def)

lemma xor_bit_neq: "k < 8 \<Longrightarrow> (x::byte) XOR 2 ^ k \<noteq> x"
proof
  assume k: "k < 8" and eq: "x XOR 2 ^ k = x"
  have "bit (x XOR 2 ^ k) k = (\<not> bit x k)"
    using k by (simp add: bit_xor_iff bit_exp_iff)
  with eq show False by simp
qed

lemma flip_nth_neq:
  assumes "i < 8 * length b"
  shows "flip_bit_at i b ! (i div 8) \<noteq> b ! (i div 8)"
proof -
  from assms have "i div 8 < length b" by auto
  then show ?thesis
    by (simp add: flip_bit_at_def xor_bit_neq)
qed

lemma flip_neq: "i < 8 * length b \<Longrightarrow> flip_bit_at i b \<noteq> b"
proof
  assume "i < 8 * length b" and "flip_bit_at i b = b"
  then show False using flip_nth_neq[of i b] by simp
qed

lemma flip_low:
  assumes "length h = 16" and "i < 128"
  shows "flip_bit_at i (h @ b) = flip_bit_at i h @ b"
proof -
  from assms have "i div 8 < length h" by auto
  then show ?thesis
    by (simp add: flip_bit_at_def list_update_append nth_append)
qed

lemma flip_high:
  assumes "length h = 16" and "128 \<le> i"
  shows "flip_bit_at i (h @ b) = h @ flip_bit_at (i - 128) b"
proof -
  define j where "j = i - 128"
  with assms(2) have i: "i = j + 16 * 8" by simp
  have "(j + 16 * 8) div 8 = 16 + j div 8"
    by (rule div_mult_self1) simp
  moreover have "(j + 16 * 8) mod 8 = j mod 8"
    by (rule mod_mult_self1)
  ultimately have d: "i div 8 = j div 8 + 16" "i mod 8 = j mod 8"
    unfolding i by (simp_all only: add.commute)
  show ?thesis
    unfolding j_def[symmetric]
    using assms(1) by (simp add: flip_bit_at_def list_update_append nth_append d)
qed

lemma validate_split:
  assumes "\<forall>key d. length (hmac_md5 key d) = 16"
    and "length x = 16" and "MIN_BLOB_SIZE \<le> length b" and "eol_terminated b"
  shows "validateNTLMv2Response hmac_md5 up (x @ b) nh u d ch
         = Inr (take 4 b = BLOB_SIGNATURE
                \<and> hmac_md5 (createNTLM2Hash hmac_md5 up nh u d) (ch @ b) = x)"
proof -
  from parse_eol_terminated[OF assms(3,4)] obtain obj where
    p: "parseNTLMv2Blob b = Inr (Some obj)" and sg: "signature obj = take 4 b"
    by blast
  have l: "\<not> length (x @ b) < 16 + MIN_BLOB_SIZE"
    using assms(2,3) by simp
  have dr: "drop 16 (x @ b) = b"
    using assms(2) by simp
  have eq: "(hmac_md5 k (ch @ b) @ b = x @ b) = (hmac_md5 k (ch @ b) = x)" for k
    by simp
  show ?thesis
    unfolding validateNTLMv2Response_def Let_def
    using l by (auto simp add: dr p sg bufferEquals_def calculateNTLM2Response_def Let_def
        simp del: drop_append)
qed

lemma validate_parse_fault:
  assumes "length x = 16" and "MIN_BLOB_SIZE \<le> length b" and "parseNTLMv2Blob b = Inl e"
  shows "validateNTLMv2Response hmac_md5 up (x @ b) nh u d ch = Inl e"
proof -
  have l: "\<not> length (x @ b) < 16 + MIN_BLOB_SIZE"
    using assms(1,2) by simp
  have dr: "drop 16 (x @ b) = b"
    using assms(1) by simp
  show ?thesis
    unfolding validateNTLMv2Response_def Let_def
    using l by (simp add: dr assms(3) del: drop_append)
qed

lemma eol_terminated_flip_head:
  assumes "eol_terminated b" and "j < 32"
  shows "eol_terminated (flip_bit_at j b)"
proof -
  from assms(2) have "j div 8 < 28" by auto
  then have "drop 28 (flip_bit_at j b) = drop 28 b"
    by (simp add: flip_bit_at_def)
  with assms(1) show ?thesis by (simp add: eol_terminated_def)
qed

lemma signature_flip_head:
  assumes "4 \<le> length b" and "j < 32"
  shows "take 4 (flip_bit_at j b) \<noteq> take 4 b"
proof
  assume eq: "take 4 (flip_bit_at j b) = take 4 b"
  from assms have j4: "j div 8 < 4" and jl: "j < 8 * length b" by auto
  have "flip_bit_at j b ! (j div 8) = take 4 (flip_bit_at j b) ! (j div 8)"
    using j4 by simp
  also have "\<dots> = b ! (j div 8)"
    unfolding eq using j4 by simp
  finally show False using flip_nth_neq[OF jl] by simp
qed

text \<open>
  Claim C4, amended. For every function \<open>hmac\<close> with 16-byte results in the place of
  HMAC-MD5, every NTLM hash, user name, domain name, challenge and well-formed blob (at
  least 36 bytes, the signature \<open>01 01 00 00\<close>, an attribute list terminated in
  bounds): \<open>validateNTLMv2Response\<close> returns true on the response computed by
  \<open>calculateNTLM2Response\<close>; it returns false when one of the first 160 bits of the
  response (the 16-byte digest or the 4-byte signature of the blob) is flipped; and it
  returns false when a later bit is flipped, provided the attribute list of the flipped
  blob is still terminated in bounds and the digest of the flipped data differs from the
  original digest.
\<close>

theorem ntlm2_response_validates:
  assumes "\<forall>key d. length (hmac key d) = 16" and "well_formed_blob blob"
  shows "validateNTLMv2Response hmac up
           (ntlm2_response hmac up ntlmHash userName domainName blob challenge)
           ntlmHash userName domainName challenge = Inr True
     \<and> (\<forall>i<160. validateNTLMv2Response hmac up
           (flip_bit_at i (ntlm2_response hmac up ntlmHash userName domainName blob challenge))
           ntlmHash userName domainName challenge = Inr False)
     \<and> (\<forall>i. 160 \<le> i
            \<and> eol_terminated
                 (drop 16 (flip_bit_at i
                    (ntlm2_response hmac up ntlmHash userName domainName blob challenge)))
            \<and> hmac (createNTLM2Hash hmac up ntlmHash userName domainName)
                 (challenge @ drop 16 (flip_bit_at i
                    (ntlm2_response hmac up ntlmHash userName domainName blob challenge)))
               \<noteq> hmac (createNTLM2Hash hmac up ntlmHash userName domainName)
                    (challenge @ blob)
          \<longrightarrow> validateNTLMv2Response hmac up
                (flip_bit_at i (ntlm2_response hmac up ntlmHash userName domainName blob challenge))
                ntlmHash userName domainName challenge = Inr False)"
proof -
  define hash where "hash = createNTLM2Hash hmac up ntlmHash userName domainName"
  define h where "h = hmac hash (challenge @ blob)"
  have resp: "ntlm2_response hmac up ntlmHash userName domainName blob challenge = h @ blob"
    by (simp add: ntlm2_response_def calculateNTLM2Response_def Let_def h_def hash_def)
  have lh: "length h = 16" using assms(1) by (simp add: h_def)
  from assms(2) have lb: "MIN_BLOB_SIZE \<le> length blob" and sg: "take 4 blob = BLOB_SIGNATURE"
    and et: "eol_terminated blob"
    by (simp_all add: well_formed_blob_def)
  have lb4: "4 \<le> length blob" using lb by (simp add: MIN_BLOB_SIZE_def)
  have vs: "validateNTLMv2Response hmac up (x @ b) ntlmHash userName domainName challenge
         = Inr (take 4 b = BLOB_SIGNATURE \<and> hmac hash (challenge @ b) = x)"
    if "length x = 16" "MIN_BLOB_SIZE \<le> length b" "eol_terminated b" for x b
    unfolding hash_def using assms(1) that by (rule validate_split)
  have p1: "validateNTLMv2Response hmac up (h @ blob) ntlmHash userName domainName challenge
              = Inr True"
    unfolding vs[OF lh lb et] using sg by (simp add: h_def)
  have p2: "validateNTLMv2Response hmac up (flip_bit_at i (h @ blob)) ntlmHash userName
              domainName challenge = Inr False" if i: "i < 160" for i
  proof (cases "i < 128")
    case True
    have ne: "flip_bit_at i h \<noteq> h"
      using True lh by (intro flip_neq) simp
    have lf: "length (flip_bit_at i h) = 16" using lh by simp
    have "h = hmac hash (challenge @ blob)" by (simp add: h_def)
    with ne have "hmac hash (challenge @ blob) \<noteq> flip_bit_at i h" by simp
    then show ?thesis
      unfolding flip_low[OF lh True] vs[OF lf lb et] by simp
  next
    case False
    then have ge: "128 \<le> i" and j: "i - 128 < 32" using i by auto
    have lf: "MIN_BLOB_SIZE \<le> length (flip_bit_at (i - 128) blob)" using lb by simp
    have "take 4 (flip_bit_at (i - 128) blob) \<noteq> BLOB_SIGNATURE"
      using signature_flip_head[OF lb4 j] sg by simp
    then show ?thesis
      unfolding flip_high[OF lh ge] vs[OF lh lf eol_terminated_flip_head[OF et j]] by simp
  qed
  have p3: "validateNTLMv2Response hmac up (flip_bit_at i (h @ blob)) ntlmHash userName
              domainName challenge = Inr False"
    if i: "160 \<le> i" and et': "eol_terminated (drop 16 (flip_bit_at i (h @ blob)))"
      and ne: "hmac hash (challenge @ drop 16 (flip_bit_at i (h @ blob))) \<noteq> h" for i
  proof -
    from i have ge: "128 \<le> i" by simp
    have fl: "flip_bit_at i (h @ blob) = h @ flip_bit_at (i - 128) blob"
      by (rule flip_high[OF lh ge])
    have dr: "drop 16 (flip_bit_at i (h @ blob)) = flip_bit_at (i - 128) blob"
      unfolding fl using lh by simp
    have lf: "MIN_BLOB_SIZE \<le> length (flip_bit_at (i - 128) blob)" using lb by simp
    show ?thesis
      unfolding fl vs[OF lh lf et'[unfolded dr]] using ne[unfolded dr] by simp
  qed
  show ?thesis
    unfolding resp hash_def[symmetric] h_def[symmetric]
  proof (intro conjI allI impI)
    show "validateNTLMv2Response hmac up (h @ blob) ntlmHash userName domainName challenge
              = Inr True"
      by (rule p1)
  next
    fix i :: nat assume "i < 160"
    then show "validateNTLMv2Response hmac up (flip_bit_at i (h @ blob)) ntlmHash userName
              domainName challenge = Inr False"
      by (rule p2)
  next
    fix i :: nat
    assume a: "160 \<le> i \<and> eol_terminated (drop 16 (flip_bit_at i (h @ blob)))
        \<and> hmac hash (challenge @ drop 16 (flip_bit_at i (h @ blob))) \<noteq> h"
    show "validateNTLMv2Response hmac up (flip_bit_at i (h @ blob)) ntlmHash userName
              domainName challenge = Inr False"
      using a p3 by blast
  qed
qed

lemma length_sample_mac: "length (sample_mac key d) = 16"
  by (simp add: sample_mac_def)

lemma xor_same_left: "(x::byte) XOR a = x XOR b \<Longrightarrow> a = b"
  by (metis xor.left_neutral xor.assoc xor_self_eq)

lemma sample_mac_sum:
  assumes "sum_list d1 \<noteq> sum_list d2"
  shows "sample_mac key d1 \<noteq> sample_mac key d2"
proof
  assume eq: "sample_mac key d1 = sample_mac key d2"
  define ks where "ks = take 16 (key @ replicate 16 0)"
  have "length ks = 16" by (simp add: ks_def)
  then have ne: "ks \<noteq> []" by auto
  from eq have "map (\<lambda>k. k XOR sum_list d1) ks = map (\<lambda>k. k XOR sum_list d2) ks"
    unfolding sample_mac_def ks_def .
  then have "\<forall>x\<in>set ks. x XOR sum_list d1 = x XOR sum_list d2"
    by (simp only: map_eq_conv)
  with ne have "hd ks XOR sum_list d1 = hd ks XOR sum_list d2"
    by simp
  then show False using assms xor_same_left by blast
qed

lemma sum_list_update_byte:
  "k < length xs \<Longrightarrow> sum_list (xs[k := x]) = sum_list xs + x - (xs ! k :: byte)"
proof (induction xs arbitrary: k)
  case Nil
  then show ?case by simp
next
  case (Cons a xs)
  then show ?case by (cases k) simp_all
qed

lemma sample_mac_flip:
  assumes "j < 8 * length b"
  shows "sample_mac key (c @ flip_bit_at j b) \<noteq> sample_mac key (c @ b)"
proof -
  from assms have n: "j div 8 < length b" by auto
  have "sum_list (flip_bit_at j b) = sum_list b + flip_bit_at j b ! (j div 8) - b ! (j div 8)"
    using n by (simp add: flip_bit_at_def sum_list_update_byte)
  moreover have "flip_bit_at j b ! (j div 8) \<noteq> b ! (j div 8)"
    using assms by (rule flip_nth_neq)
  ultimately have "sum_list (flip_bit_at j b) \<noteq> sum_list b"
    by simp
  then have "sum_list (c @ flip_bit_at j b) \<noteq> sum_list (c @ b)"
    by simp
  then show ?thesis by (rule sample_mac_sum)
qed


lemma eol_only_blob_ok: "well_formed_blob eol_only_blob"
proof -
  have "list_all valid_entry []
        \<and> drop 28 eol_only_blob = concat (map encode_entry []) @ u16le EOL @ [0, 0, 0xff, 0xff, 0xff, 0xff]"
    by (simp add: eol_only_blob_def u16le_def EOL_def)
  then have "eol_terminated eol_only_blob"
    unfolding eol_terminated_def by blast
  then show ?thesis
    by (simp add: well_formed_blob_def MIN_BLOB_SIZE_def eol_only_blob_def BLOB_SIGNATURE_def)
qed

lemma flipped_eol_only_blob:
  "flip_bit_at 224 eol_only_blob = [1, 1, 0, 0] @ replicate 24 0 @ [1, 0] @ [0, 0, 0xff, 0xff, 0xff, 0xff]"
  by (simp add: flip_bit_at_def eol_only_blob_def list_update_append nth_append)

lemma flipped_eol_only_blob_faults:
  "parseNTLMv2Blob (flip_bit_at 224 eol_only_blob) = Inl RangeError"
proof -
  let ?b = "[1, 1, 0, 0] @ replicate 24 0 @ [1, 0] @ [0, 0, 0xff, 0xff, 0xff, 0xff] :: buffer"
  have l: "length ?b = 36" by simp
  have r: "readUInt16LE ?b 28 = Inr 1" "readUInt16LE ?b 30 = Inr 0"
    "readUInt16LE ?b 32 = Inr 65535" "readUInt16LE ?b 34 = Inr 65535"
    "readUInt16LE ?b 65571 = Inl RangeError"
    by (simp_all add: readUInt16LE_def nth_append)
  have i2: "info_loop ?b 34 65535 infos = Inl RangeError" for infos
    by (subst info_loop.simps) (simp add: r EOL_def del: append.simps replicate.simps)
  have i1: "info_loop ?b 30 (Suc 0) [] = Inl RangeError"
    by (subst info_loop.simps) (simp add: r i2 EOL_def del: append.simps replicate.simps)
  have "parseNTLMv2Blob ?b = Inl RangeError"
    unfolding parseNTLMv2Blob_def
    by (simp add: MIN_BLOB_SIZE_def readUInt32LE_def r i1 del: append.simps replicate.simps)
  then show ?thesis by (simp only: flipped_eol_only_blob)
qed

text \<open>
  Claim C4 as stated fails: the response for a well-formed blob validates, and flipping
  bit 352 of it (bit 0 of the terminating type at offset 28 of the blob) makes
  \<open>validateNTLMv2Response\<close> raise a RangeError in the parser instead of returning
  false.
\<close>

theorem flipped_terminator_raises_RangeError:
  "well_formed_blob eol_only_blob
   \<and> sample_validate (sample_response eol_only_blob) = Inr True
   \<and> sample_validate (flip_bit_at 352 (sample_response eol_only_blob)) = Inl RangeError
   \<and> sample_validate (flip_bit_at 352 (sample_response eol_only_blob)) \<noteq> Inr False"
proof -
  define h where "h = sample_mac (createNTLM2Hash sample_mac ascii_upper sample_ntlm_hash sample_user sample_domain)
      (sample_challenge @ eol_only_blob)"
  have resp: "sample_response eol_only_blob = h @ eol_only_blob"
    by (simp add: sample_response_def ntlm2_response_def calculateNTLM2Response_def Let_def h_def)
  have lh: "length h = 16" by (simp add: h_def length_sample_mac)
  have fl: "flip_bit_at 352 (h @ eol_only_blob) = h @ flip_bit_at 224 eol_only_blob"
    using flip_high[OF lh, of 352 eol_only_blob] by simp
  have lb: "MIN_BLOB_SIZE \<le> length (flip_bit_at 224 eol_only_blob)"
    by (simp add: MIN_BLOB_SIZE_def eol_only_blob_def)
  have f: "sample_validate (flip_bit_at 352 (sample_response eol_only_blob)) = Inl RangeError"
    unfolding resp fl sample_validate_def
    using lh lb flipped_eol_only_blob_faults by (rule validate_parse_fault)
  have m: "\<forall>key d. length (sample_mac key d) = 16"
    by (simp add: length_sample_mac)
  from eol_only_blob_ok have lb': "MIN_BLOB_SIZE \<le> length eol_only_blob"
    and sg: "take 4 eol_only_blob = BLOB_SIGNATURE" and et: "eol_terminated eol_only_blob"
    by (simp_all add: well_formed_blob_def)
  have t: "sample_validate (sample_response eol_only_blob) = Inr True"
    unfolding resp sample_validate_def validate_split[OF m lh lb' et]
    using sg by (simp add: h_def)
  from f t eol_only_blob_ok show ?thesis by simp
qed

theorem ntlm2_response_validates_witness:
  "(\<forall>key d. length (sample_mac key d) = 16)
   \<and> well_formed_blob terminated_blob
   \<and> sample_validate (sample_response terminated_blob) = Inr True
   \<and> sample_validate (flip_bit_at 5 (sample_response terminated_blob)) = Inr False
   \<and> sample_validate (flip_bit_at 130 (sample_response terminated_blob)) = Inr False
   \<and> sample_validate (flip_bit_at 448 (sample_response terminated_blob)) = Inr False"
proof -
  define hash where "hash = createNTLM2Hash sample_mac ascii_upper sample_ntlm_hash sample_user sample_domain"
  define h where "h = sample_mac hash (sample_challenge @ terminated_blob)"
  have m: "\<forall>key d. length (sample_mac key d) = 16"
    by (simp add: length_sample_mac)
  have wf: "well_formed_blob terminated_blob"
    using terminated_blob_ok by (simp add: well_formed_blob_def)
  note th = ntlm2_response_validates[OF m wf, where up = ascii_upper and ntlmHash = sample_ntlm_hash
      and userName = sample_user and domainName = sample_domain and challenge = sample_challenge,
      folded sample_response_def sample_validate_def]
  have resp: "sample_response terminated_blob = h @ terminated_blob"
    by (simp add: sample_response_def ntlm2_response_def calculateNTLM2Response_def Let_def
        h_def hash_def)
  have lh: "length h = 16" by (simp add: h_def length_sample_mac)
  have fl: "flip_bit_at 448 (h @ terminated_blob) = h @ flip_bit_at 320 terminated_blob"
    using flip_high[OF lh, of 448 terminated_blob] by simp
  have dr: "drop 16 (flip_bit_at 448 (sample_response terminated_blob)) = flip_bit_at 320 terminated_blob"
    unfolding resp fl using lh by simp
  have "list_all valid_entry [(2, [0x41, 0])]
        \<and> drop 28 (flip_bit_at 320 terminated_blob)
            = concat (map encode_entry [(2, [0x41, 0])]) @ u16le EOL @ [0, 0, 0xff, 0xff, 0xfe, 0xff]"
    by (simp add: valid_entry_def terminated_blob_def encode_entry_def u16le_def EOL_def
        flip_bit_at_def list_update_append nth_append)
  then have et: "eol_terminated (flip_bit_at 320 terminated_blob)"
    unfolding eol_terminated_def by blast
  have ne: "sample_mac hash (sample_challenge @ flip_bit_at 320 terminated_blob)
             \<noteq> sample_mac hash (sample_challenge @ terminated_blob)"
    by (rule sample_mac_flip) (simp add: terminated_blob_def)
  from th have "160 \<le> (448::nat)
      \<and> eol_terminated (drop 16 (flip_bit_at 448 (sample_response terminated_blob)))
      \<and> sample_mac hash (sample_challenge
            @ drop 16 (flip_bit_at 448 (sample_response terminated_blob)))
          \<noteq> sample_mac hash (sample_challenge @ terminated_blob)
      \<longrightarrow> sample_validate (flip_bit_at 448 (sample_response terminated_blob)) = Inr False"
    unfolding hash_def by blast
  then have 3: "sample_validate (flip_bit_at 448 (sample_response terminated_blob)) = Inr False"
    unfolding dr using et ne by simp
  from th m wf 3 show ?thesis by simp
qed

end
